theory Spec2Isabelle
  imports Main "HOL-Library.AList" "HOL-Library.Sublist"
begin

section \<open>JavaScript values\<close>

text \<open>
  The values that reach the configuration and update helpers are the ones a YAML or
  JSON parser produces, plus \<open>undefined\<close>. Objects are association lists in insertion
  order (the order JavaScript enumerates keys that are not array indices); a JavaScript
  object has each key once, which the theorems state as \<open>distinct (map fst fs)\<close> where
  they need it. Numbers carry integer values (epoch milliseconds, counts); fractions,
  NaN and the infinities are not represented. A string is a list of characters, each a
  code unit below 256.

  Values are trees: two different positions of a value hold different object
  references (no aliasing inside an input and none between two inputs).
\<close>

datatype jsval =
    JUndef
  | JNull
  | JBool bool
  | JNum int
  | JStr string
  | JArr "jsval list"
  | JObj "(string \<times> jsval) list"

type_synonym jsobj = "(string \<times> jsval) list"

datatype js_error = TypeError

text \<open>Decimal rendering of an index or a number, as \<open>String(n)\<close> gives it.\<close>

definition digit_char :: "nat \<Rightarrow> char" where
  "digit_char d = char_of (48 + d)"

fun show_nat :: "nat \<Rightarrow> string" where
  "show_nat n = (if n < 10 then [digit_char n] else show_nat (n div 10) @ [digit_char (n mod 10)])"

declare show_nat.simps [simp del]

definition show_int :: "int \<Rightarrow> string" where
  "show_int i = (if i < 0 then CHR ''-'' # show_nat (nat (- i)) else show_nat (nat i))"

text \<open>\<open>string.split(sep)\<close> for a one-character separator.\<close>

fun split_on :: "char \<Rightarrow> string \<Rightarrow> string list" where
  "split_on sep [] = [[]]"
| "split_on sep (c # cs) =
     (if c = sep then [] # split_on sep cs
      else (case split_on sep cs of
              w # ws \<Rightarrow> (c # w) # ws
            | [] \<Rightarrow> [[c]]))"

text \<open>\<open>!value\<close> is true for the falsy values.\<close>

fun truthy :: "jsval \<Rightarrow> bool" where
  "truthy JUndef = False"
| "truthy JNull = False"
| "truthy (JBool b) = b"
| "truthy (JNum n) = (n \<noteq> 0)"
| "truthy (JStr s) = (s \<noteq> [])"
| "truthy (JArr xs) = True"
| "truthy (JObj fs) = True"

text \<open>
  \<open>object[key]\<close> for an own key of an object; \<open>undefined\<close> when the key is absent.
\<close>

definition getOwn :: "jsobj \<Rightarrow> string \<Rightarrow> jsval" where
  "getOwn object key = (case map_of object key of Some v \<Rightarrow> v | None \<Rightarrow> JUndef)"

section \<open>lodash helpers used by \<open>merge\<close>\<close>

text \<open>
  lodash's \<open>eq\<close> (SameValueZero): primitives are compared by value, objects and
  arrays by reference. Two different positions never hold the same reference, so an
  object or array is not equal to any other element.
\<close>

fun sameValueZero :: "jsval \<Rightarrow> jsval \<Rightarrow> bool" where
  "sameValueZero JUndef JUndef = True"
| "sameValueZero JNull JNull = True"
| "sameValueZero (JBool a) (JBool b) = (a = b)"
| "sameValueZero (JNum a) (JNum b) = (a = b)"
| "sameValueZero (JStr a) (JStr b) = (a = b)"
| "sameValueZero _ _ = False"

text \<open>
  \<open>_.uniq\<close> (\<open>baseUniq\<close>): walk the array, keep a value unless one of the values kept so
  far is SameValueZero-equal to it.
\<close>

fun baseUniq :: "jsval list \<Rightarrow> jsval list \<Rightarrow> jsval list" where
  "baseUniq [] kept = kept"
| "baseUniq (v # array) kept =
     (if list_ex (\<lambda>seen. sameValueZero seen v) kept
      then baseUniq array kept
      else baseUniq array (kept @ [v]))"

definition uniq :: "jsval list \<Rightarrow> jsval list" where
  "uniq array = baseUniq array []"

text \<open>\<open>s.concat(f)\<close>: an array argument is spread, any other value is appended.\<close>

fun concat_js :: "jsval list \<Rightarrow> jsval \<Rightarrow> jsval list" where
  "concat_js s (JArr ys) = s @ ys"
| "concat_js s f = s @ [f]"

text \<open>
  The customizer of \<open>merge\<close> in \<open>config.js\<close>:
  \<^verbatim>\<open>function(s, f) { if (_.isArray(s)) { return _.uniq(s.concat(f)); } }\<close>
  It returns \<open>undefined\<close> when \<open>s\<close> is not an array.
\<close>

fun customizer :: "jsval \<Rightarrow> jsval \<Rightarrow> jsval" where
  "customizer (JArr s) f = JArr (uniq (concat_js s f))"
| "customizer s f = JUndef"

text \<open>
  \<open>isArrayLikeObject\<close> holds of an object whose \<open>length\<close> is a valid array length;
  \<open>copyArray\<close> reads its index properties.
\<close>

definition MAX_SAFE_INTEGER :: int where
  "MAX_SAFE_INTEGER = 9007199254740991"

fun isArrayLikeObject :: "jsval \<Rightarrow> bool" where
  "isArrayLikeObject (JObj fs) =
     (case map_of fs ''length'' of
        Some (JNum n) \<Rightarrow> 0 \<le> n \<and> n \<le> MAX_SAFE_INTEGER
      | _ \<Rightarrow> False)"
| "isArrayLikeObject v = False"

fun copyArray :: "jsval \<Rightarrow> jsval list" where
  "copyArray (JObj fs) =
     (case map_of fs ''length'' of
        Some (JNum n) \<Rightarrow> map (\<lambda>i. getOwn fs (show_nat i)) [0..<nat n]
      | _ \<Rightarrow> [])"
| "copyArray v = []"

text \<open>
  lodash's \<open>safeGet\<close> (4.17.21), through which the merge reads a property:
  \<^verbatim>\<open>function safeGet(object, key) {
    if (key === 'constructor' && typeof object[key] === 'function') { return; }
    if (key == '__proto__') { return; }
    return object[key];
  }\<close>
  The key \<open>__proto__\<close> always reads as \<open>undefined\<close>. A key that the object does not own
  reads as \<open>undefined\<close> or as a function inherited from \<open>Object.prototype\<close>; the merge
  treats such a function in every branch as it treats \<open>undefined\<close> (it is not an array,
  not array-like, and \<open>isFunction\<close> sends it to the fresh-object branch), so it is
  \<open>undefined\<close> here.
\<close>

definition safeGet :: "jsobj \<Rightarrow> string \<Rightarrow> jsval" where
  "safeGet object key = (if key = ''__proto__'' then JUndef else getOwn object key)"

text \<open>
  \<open>baseMergeDeep\<close> handles a source value that is an array or object (\<open>isObject\<close>), and
  reads it again with \<open>safeGet(source, key)\<close>: under the key \<open>__proto__\<close> it sees
  \<open>undefined\<close>, the customizer (given \<open>undefined\<close> twice) returns \<open>undefined\<close>, and
  \<open>newValue\<close> is \<open>undefined\<close>.
\<close>

fun isObject :: "jsval \<Rightarrow> bool" where
  "isObject (JArr ys) = True"
| "isObject (JObj fs) = True"
| "isObject v = False"

text \<open>\<open>key in object\<close>: an own key, or a member of \<open>Object.prototype\<close>.\<close>

definition objectPrototypeKeys :: "string list" where
  "objectPrototypeKeys =
     [''constructor'', ''__defineGetter__'', ''__defineSetter__'', ''hasOwnProperty'',
      ''__lookupGetter__'', ''__lookupSetter__'', ''isPrototypeOf'', ''propertyIsEnumerable'',
      ''toString'', ''valueOf'', ''__proto__'', ''toLocaleString'']"

definition key_in :: "string \<Rightarrow> jsobj \<Rightarrow> bool" where
  "key_in key object = (key \<in> fst ` set object \<or> key \<in> set objectPrototypeKeys)"

text \<open>
  \<^verbatim>\<open>function assignMergeValue(object, key, value) {
    if ((value !== undefined && !eq(object[key], value)) ||
        (value === undefined && !(key in object))) {
      baseAssignValue(object, key, value);
    }
  }\<close>
  \<open>baseAssignValue\<close> defines an own property, also for \<open>__proto__\<close>. Where the value is
  already there (\<open>eq\<close>), storing it again changes nothing; where it is the destination's
  own object merged in place, the destination holds the merged object.
\<close>

definition assignMergeValue :: "jsobj \<Rightarrow> string \<Rightarrow> jsval \<Rightarrow> jsobj" where
  "assignMergeValue object key v =
     (if v \<noteq> JUndef \<or> \<not> key_in key object then AList.update key v object else object)"

text \<open>The same for an array destination at an index it has: \<open>undefined\<close> is not stored.\<close>

definition assignIndex :: "jsval \<Rightarrow> jsval \<Rightarrow> jsval" where
  "assignIndex objValue v = (if v \<noteq> JUndef then v else objValue)"

text \<open>
  \<open>_.mergeWith\<close> (\<open>baseMerge\<close>, \<open>baseMergeDeep\<close>) with the customizer above.
  \<open>baseMerge object source\<close> is the state of the destination \<open>object\<close> after every property
  of \<open>source\<close> has been merged into it; \<open>baseMergeArr\<close> is the same loop when the
  destination is an array (a fresh \<open>[]\<close>, or a copy of an array-like object) and the
  source an array. \<open>mergeValue objValue srcValue\<close> is \<open>newValue\<close>, the value to assign,
  where \<open>objValue\<close> is what \<open>safeGet\<close> read from the destination:
  \<^item> the customizer's result when it is not \<open>undefined\<close>;
  \<^item> for a source array, the source merged into \<open>[]\<close> (or into the copy of an
    array-like destination);
  \<^item> for a source object, the source merged into the destination's object, or into a
    fresh \<open>{}\<close> when the destination is not an object;
  \<^item> otherwise the source's value (\<open>undefined\<close> included).
\<close>

fun baseMerge :: "jsobj \<Rightarrow> jsobj \<Rightarrow> jsobj"
  and baseMergeArr :: "jsval list \<Rightarrow> jsval list \<Rightarrow> jsval list"
  and mergeValue :: "jsval \<Rightarrow> jsval \<Rightarrow> jsval"
where
  "baseMerge object [] = object"
| "baseMerge object ((key, srcValue) # source) =
     baseMerge
       (assignMergeValue object key
          (if key = ''__proto__'' \<and> isObject srcValue then JUndef
           else mergeValue (safeGet object key) srcValue))
       source"
| "baseMergeArr object [] = object"
| "baseMergeArr [] (srcValue # source) =
     mergeValue JUndef srcValue # baseMergeArr [] source"
| "baseMergeArr (objValue # object) (srcValue # source) =
     assignIndex objValue (mergeValue objValue srcValue) # baseMergeArr object source"
| "mergeValue objValue srcValue =
     (case customizer objValue srcValue of
        JUndef \<Rightarrow>
          (case srcValue of
             JArr ys \<Rightarrow>
               JArr (baseMergeArr (if isArrayLikeObject objValue then copyArray objValue else []) ys)
           | JObj fs \<Rightarrow>
               JObj (baseMerge (case objValue of JObj os \<Rightarrow> os | _ \<Rightarrow> []) fs)
           | _ \<Rightarrow> srcValue)
      | newValue \<Rightarrow> newValue)"

declare mergeValue.simps [simp del]

text \<open>
  The properties \<open>baseFor(source, ..., keysIn)\<close> enumerates, with their values: the
  entries of an object, the indices of an array, the indices of a string primitive
  (each holding one character); a number or boolean has none.
\<close>

fun sourceProps :: "jsval \<Rightarrow> jsobj" where
  "sourceProps (JObj fs) = fs"
| "sourceProps (JArr xs) = zip (map show_nat [0..<length xs]) xs"
| "sourceProps (JStr s) = zip (map show_nat [0..<length s]) (map (\<lambda>c. JStr [c]) s)"
| "sourceProps v = []"

section \<open>\<open>config.js\<close>: \<open>merge\<close>\<close>

text \<open>
  \<^verbatim>\<open>exports.merge = function(old, fresh) { return _.mergeWith(old, fresh, customizer); }\<close>
  \<open>_.mergeWith\<close> skips a falsy source (\<open>if (source)\<close> in \<open>createAssigner\<close>), merges the
  source's properties into \<open>old\<close> itself and returns \<open>old\<close>. \<open>merge old fresh\<close> is that
  object after the call.
\<close>

definition merge :: "jsobj \<Rightarrow> jsval \<Rightarrow> jsobj" where
  "merge old fresh = (if truthy fresh then baseMerge old (sourceProps fresh) else old)"

text \<open>
  The call as the caller sees it: the returned object, and the caller's two arguments
  afterwards. The destination is written in place and is the object returned; the source
  is only read.
\<close>

definition merge_effect :: "jsobj \<Rightarrow> jsval \<Rightarrow> jsobj \<times> jsobj \<times> jsval" where
  "merge_effect old fresh = (let object = merge old fresh in (object, object, fresh))"

text \<open>
  The specification's sequence merge, in its own words: duplicates removed, the first
  occurrence keeps its position.
\<close>

fun dedup :: "jsval list \<Rightarrow> jsval list" where
  "dedup [] = []"
| "dedup (x # xs) = x # dedup (filter (\<lambda>y. \<not> sameValueZero x y) xs)"

fun is_array :: "jsval \<Rightarrow> bool" where
  "is_array (JArr xs) = True"
| "is_array v = False"

fun is_scalar :: "jsval \<Rightarrow> bool" where
  "is_scalar JNull = True"
| "is_scalar (JBool b) = True"
| "is_scalar (JNum n) = True"
| "is_scalar (JStr s) = True"
| "is_scalar v = False"

fun is_plain_object :: "jsval \<Rightarrow> bool" where
  "is_plain_object (JObj fs) = True"
| "is_plain_object v = False"

text \<open>
  A value as a YAML or JSON document ordinarily holds it: at every depth an object has
  each key once, no key \<open>__proto__\<close>, and no \<open>undefined\<close> property value.
\<close>

fun wf_val :: "jsval \<Rightarrow> bool" where
  "wf_val (JArr xs) = (\<forall>x \<in> set xs. wf_val x)"
| "wf_val (JObj fs) =
     (distinct (map fst fs) \<and> ''__proto__'' \<notin> fst ` set fs
      \<and> (\<forall>p \<in> set fs. snd p \<noteq> JUndef \<and> wf_val (snd p)))"
| "wf_val v = True"

section \<open>\<open>config.js\<close>: \<open>loadFiles\<close>\<close>

text \<open>
  The file system and the YAML parser as \<open>loadFiles\<close> sees them. For a path,
  \<open>fs.existsSync\<close> is false (\<open>Missing\<close>), or the file exists and
  \<open>yaml.safeLoad(fs.readFileSync(file))\<close> throws (\<open>Failing e\<close>) or returns a document
  (\<open>Parsed doc\<close>; an empty file gives \<open>undefined\<close>).
\<close>

datatype 'e file_state = Missing | Failing 'e | Parsed jsval

text \<open>
  \<^verbatim>\<open>var conf = {};
  _.forEach(files, function(file) {
    if (fs.existsSync(file)) { conf = _config.merge(conf, yaml.safeLoad(fs.readFileSync(file))); }
  });
  return conf;\<close>
  An exception leaves the loop and the function; \<open>Inl\<close> is that exception.
\<close>

fun loadFiles_from :: "(string \<Rightarrow> 'e file_state) \<Rightarrow> jsobj \<Rightarrow> string list \<Rightarrow> 'e + jsobj" where
  "loadFiles_from fs conf [] = Inr conf"
| "loadFiles_from fs conf (file # files) =
     (case fs file of
        Missing \<Rightarrow> loadFiles_from fs conf files
      | Failing e \<Rightarrow> Inl e
      | Parsed doc \<Rightarrow> loadFiles_from fs (merge conf doc) files)"

definition loadFiles :: "(string \<Rightarrow> 'e file_state) \<Rightarrow> string list \<Rightarrow> 'e + jsobj" where
  "loadFiles fs files = loadFiles_from fs [] files"

text \<open>The documents of the files that exist and parse, in the order of the paths.\<close>

fun parsed_documents :: "(string \<Rightarrow> 'e file_state) \<Rightarrow> string list \<Rightarrow> jsval list" where
  "parsed_documents fs [] = []"
| "parsed_documents fs (file # files) =
     (case fs file of Parsed doc \<Rightarrow> doc # parsed_documents fs files | _ \<Rightarrow> parsed_documents fs files)"

fun is_failing :: "'e file_state \<Rightarrow> bool" where
  "is_failing (Failing e) = True"
| "is_failing s = False"

text \<open>A small file system for the examples: two configuration files and a broken one.\<close>

definition example_fs :: "string \<Rightarrow> string file_state" where
  "example_fs path =
     (if path = ''a.yml'' then Parsed (JObj [(''level'', JStr ''debug''), (''dirs'', JArr [JStr ''x''])])
      else if path = ''b.yml'' then Parsed (JObj [(''level'', JStr ''warn''), (''dirs'', JArr [JStr ''x'', JStr ''y''])])
      else if path = ''bad.yml'' then Failing ''YAMLException''
      else Missing)"

section \<open>Language conversions used by \<open>updates.js\<close>\<close>

text \<open>
  \<open>value.key\<close> for one of the keys the update helpers read (\<open>expires\<close>, \<open>draft\<close>,
  \<open>prerelease\<close>, none of them a member of a built-in prototype): a TypeError on
  \<open>undefined\<close> and \<open>null\<close>, the own property of an object, \<open>undefined\<close> on any other
  value.
\<close>

fun readProp :: "jsval \<Rightarrow> string \<Rightarrow> js_error + jsval" where
  "readProp JUndef key = Inl TypeError"
| "readProp JNull key = Inl TypeError"
| "readProp (JObj fs) key = Inr (getOwn fs key)"
| "readProp v key = Inr JUndef"

text \<open>
  \<open>ToString\<close>. An array is joined with commas, \<open>undefined\<close> and \<open>null\<close> elements giving
  the empty string. A parsed object has no callable members of its own: it renders as
  \<open>[object Object]\<close> through \<open>Object.prototype.toString\<close>, unless an own \<open>toString\<close>
  property shadows that method, in which case the conversion throws a TypeError.
  Integers are rendered in decimal (exact below \<open>10^21\<close>).
\<close>

fun join_strings :: "string \<Rightarrow> string list \<Rightarrow> string" where
  "join_strings sep [] = []"
| "join_strings sep [s] = s"
| "join_strings sep (s # t # ss) = s @ sep @ join_strings sep (t # ss)"

fun sequence_results :: "('e + 'a) list \<Rightarrow> 'e + 'a list" where
  "sequence_results [] = Inr []"
| "sequence_results (Inl e # rs) = Inl e"
| "sequence_results (Inr x # rs) = (case sequence_results rs of Inl e \<Rightarrow> Inl e | Inr xs \<Rightarrow> Inr (x # xs))"

fun toStringJS :: "jsval \<Rightarrow> js_error + string" where
  "toStringJS JUndef = Inr ''undefined''"
| "toStringJS JNull = Inr ''null''"
| "toStringJS (JBool b) = Inr (if b then ''true'' else ''false'')"
| "toStringJS (JNum n) = Inr (show_int n)"
| "toStringJS (JStr s) = Inr s"
| "toStringJS (JArr xs) =
     (case sequence_results
             (map (\<lambda>x. if x = JUndef \<or> x = JNull then Inr [] else toStringJS x) xs) of
        Inl e \<Rightarrow> Inl e
      | Inr ss \<Rightarrow> Inr (join_strings '','' ss))"
| "toStringJS (JObj fs) =
     (if ''toString'' \<in> fst ` set fs then Inl TypeError else Inr ''[object Object]'')"

text \<open>
  \<open>ToNumber\<close>, with \<open>None\<close> for NaN. The conversion of a string to a number is the
  language's own (\<open>StringToNumber\<close>) and is a parameter here; an array or object is
  converted to a string first.
\<close>

fun toNumber :: "(string \<Rightarrow> int option) \<Rightarrow> jsval \<Rightarrow> js_error + int option" where
  "toNumber stringToNumber JUndef = Inr None"
| "toNumber stringToNumber JNull = Inr (Some 0)"
| "toNumber stringToNumber (JBool b) = Inr (Some (if b then 1 else 0))"
| "toNumber stringToNumber (JNum n) = Inr (Some n)"
| "toNumber stringToNumber (JStr s) = Inr (stringToNumber s)"
| "toNumber stringToNumber v =
     (case toStringJS v of Inl e \<Rightarrow> Inl e | Inr s \<Rightarrow> Inr (stringToNumber s))"

text \<open>
  \<open>StringToNumber\<close> on the strings of decimal digits (the empty string is 0); NaN on
  every other string. It stands for the parameter in the examples, which only convert
  digit strings.
\<close>

definition digit_value :: "char \<Rightarrow> int" where
  "digit_value c = of_char c - 48"

definition is_digit :: "char \<Rightarrow> bool" where
  "is_digit c = (48 \<le> (of_char c :: nat) \<and> (of_char c :: nat) \<le> 57)"

definition decimal_value :: "string \<Rightarrow> int" where
  "decimal_value s = foldl (\<lambda>acc c. 10 * acc + digit_value c) 0 s"

definition digitsToNumber :: "string \<Rightarrow> int option" where
  "digitsToNumber s = (if list_all is_digit s then Some (decimal_value s) else None)"

section \<open>\<open>updates.js\<close>: \<open>fetch\<close>\<close>

text \<open>
  \<^verbatim>\<open>if (!data) { return true; }
  return !(data.expires >= Math.floor(Date.now()));\<close>
  \<open>now\<close> is the one reading of the clock the call makes. \<open>x >= now\<close> converts \<open>x\<close> to
  a number and is false when that is NaN.
\<close>

definition fetch :: "(string \<Rightarrow> int option) \<Rightarrow> jsval \<Rightarrow> int \<Rightarrow> js_error + bool" where
  "fetch stringToNumber data now =
     (if \<not> truthy data then Inr True
      else case readProp data ''expires'' of
             Inl e \<Rightarrow> Inl e
           | Inr x \<Rightarrow>
               (case toNumber stringToNumber x of
                  Inl e \<Rightarrow> Inl e
                | Inr None \<Rightarrow> Inr True
                | Inr (Some n) \<Rightarrow> Inr (\<not> (n \<ge> now))))"

section \<open>\<open>updates.js\<close>: \<open>refresh\<close>\<close>

text \<open>
  \<open>_.get(object, key, defaultValue)\<close> for a single key: the default when the object is
  \<open>null\<close> or \<open>undefined\<close>, has no such property, or holds \<open>undefined\<close> there.
\<close>

fun get_or :: "jsval \<Rightarrow> string \<Rightarrow> jsval \<Rightarrow> jsval" where
  "get_or (JObj fs) key defaultValue =
     (case getOwn fs key of JUndef \<Rightarrow> defaultValue | v \<Rightarrow> v)"
| "get_or object key defaultValue = defaultValue"

text \<open>
  The values \<open>_.find\<close> visits, in order: the elements of an array, the characters of a
  string, the index properties of an array-like object, the property values of any
  other object; nothing for the remaining values.
\<close>

fun find_values :: "jsval \<Rightarrow> jsval list" where
  "find_values (JArr xs) = xs"
| "find_values (JStr s) = map (\<lambda>c. JStr [c]) s"
| "find_values (JObj fs) =
     (if isArrayLikeObject (JObj fs) then copyArray (JObj fs) else map snd fs)"
| "find_values v = []"

text \<open>
  \<open>_.find\<close> with a predicate that may throw: the first value the predicate accepts,
  \<open>undefined\<close> when there is none.
\<close>

fun find_js :: "(jsval \<Rightarrow> js_error + bool) \<Rightarrow> jsval list \<Rightarrow> js_error + jsval" where
  "find_js predicate [] = Inr JUndef"
| "find_js predicate (x # xs) =
     (case predicate x of
        Inl e \<Rightarrow> Inl e
      | Inr True \<Rightarrow> Inr x
      | Inr False \<Rightarrow> find_js predicate xs)"

text \<open>
  \<^verbatim>\<open>function(release) { return (release.draft === false && release.prerelease === false); }\<close>
\<close>

definition eligible :: "jsval \<Rightarrow> js_error + bool" where
  "eligible release =
     (case readProp release ''draft'' of
        Inl e \<Rightarrow> Inl e
      | Inr d \<Rightarrow>
          if d = JBool False
          then (case readProp release ''prerelease'' of
                  Inl e \<Rightarrow> Inl e
                | Inr p \<Rightarrow> Inr (p = JBool False))
          else Inr False)"

text \<open>
  lodash's \<open>toString\<close>: the empty string for \<open>null\<close> and \<open>undefined\<close>, the string itself,
  the elements of an array converted by \<open>baseToString\<close> and joined by commas, and
  \<open>value + ''\<close> for the rest.
\<close>

fun baseToString :: "jsval \<Rightarrow> js_error + string" where
  "baseToString (JStr s) = Inr s"
| "baseToString (JArr xs) =
     (case sequence_results (map baseToString xs) of
        Inl e \<Rightarrow> Inl e
      | Inr ss \<Rightarrow> Inr (join_strings '','' ss))"
| "baseToString v = toStringJS v"

definition lodash_toString :: "jsval \<Rightarrow> js_error + string" where
  "lodash_toString v = (if v = JUndef \<or> v = JNull then Inr [] else baseToString v)"

text \<open>
  \<open>_.trimStart(string, chars)\<close> removes the leading characters of \<open>string\<close> that occur in
  \<open>chars\<close>.
\<close>

definition trimStart :: "string \<Rightarrow> string \<Rightarrow> string" where
  "trimStart string chars = dropWhile (\<lambda>c. c \<in> set chars) string"

record update_record =
  version :: string
  url :: jsval
  expires :: int

text \<open>
  The \<open>.then\<close> callback: pick the release, build the record. \<open>now\<close> is the clock when
  the record is built.
\<close>

definition buildRecord :: "string \<Rightarrow> jsval \<Rightarrow> int \<Rightarrow> js_error + update_record" where
  "buildRecord currentVersion response now =
     (case find_js eligible (find_values (get_or response ''data'' (JArr []))) of
        Inl e \<Rightarrow> Inl e
      | Inr data \<Rightarrow>
          (case lodash_toString (get_or data ''tag_name'' (JStr currentVersion)) of
             Inl e \<Rightarrow> Inl e
           | Inr tag \<Rightarrow>
               Inr \<lparr>version = trimStart tag ''v'',
                    url = get_or data ''html_url'' (JStr []),
                    expires = now + 86400000\<rparr>))"

text \<open>The \<open>.catch\<close> callback.\<close>

definition fallback :: "string \<Rightarrow> int \<Rightarrow> update_record" where
  "fallback currentVersion now =
     \<lparr>version = trimStart currentVersion ''v'', url = JStr [], expires = now + 86400000\<rparr>"

text \<open>
  The promise of \<open>github.repos.getReleases\<close> settles as rejected (network error,
  timeout, a response the client cannot read) or resolved with a response. \<open>refresh\<close>
  chains \<open>.then(buildRecord).catch(fallback)\<close>: the catch also takes an exception thrown
  inside the \<open>.then\<close> callback. The client's constructor and the call that creates the
  promise are taken to return.
\<close>

datatype 'a settled = Rejected | Resolved 'a

fun refresh :: "string \<Rightarrow> jsval settled \<Rightarrow> int \<Rightarrow> update_record" where
  "refresh currentVersion Rejected now = fallback currentVersion now"
| "refresh currentVersion (Resolved response) now =
     (case buildRecord currentVersion response now of
        Inl e \<Rightarrow> fallback currentVersion now
      | Inr r \<Rightarrow> r)"

text \<open>
  A release of the feed as \<open>section 6\<close> of the specification types it: a tag, a web URL,
  two flags, and whatever further fields the feed sends.
\<close>

record release =
  tag_name :: string
  html_url :: string
  draft :: bool
  prerelease :: bool
  other_fields :: jsobj

definition release_js :: "release \<Rightarrow> jsval" where
  "release_js r =
     JObj ([(''tag_name'', JStr (tag_name r)), (''html_url'', JStr (html_url r)),
            (''draft'', JBool (draft r)), (''prerelease'', JBool (prerelease r))] @ other_fields r)"

section \<open>\<open>config.js\<close>: \<open>updatePath\<close>\<close>






section \<open>\<open>config.js\<close>: \<open>loadEnvs\<close>\<close>

text \<open>
  \<open>_.includes(key, prefix)\<close> on a string \<open>key\<close> is \<open>key.indexOf(prefix) > -1\<close>: \<open>prefix\<close>
  occurs in \<open>key\<close> as a contiguous substring.
\<close>

definition includes_js :: "string \<Rightarrow> string \<Rightarrow> bool" where
  "includes_js key target = sublist target key"

text \<open>
  \<^verbatim>\<open>var envConfig = {};
  _.forEach(process.env, function(value, key) {
    if (_.includes(key, prefix)) {
      envConfig[_.camelCase(_.trimStart(key, prefix))] = value;
    }
  });
  return envConfig;\<close>
  The environment is the list of its entries in the order \<open>_.forEach\<close> visits them.
  \<open>_.camelCase\<close> is lodash's and is a parameter; \<open>pfx\<close> is the source's \<open>prefix\<close>.
\<close>

definition loadEnvs ::
  "(string \<Rightarrow> string) \<Rightarrow> (string \<times> string) list \<Rightarrow> string \<Rightarrow> (string \<times> string) list" where
  "loadEnvs camelCase env pfx =
     foldl (\<lambda>envConfig (key, v).
              if includes_js key pfx
              then AList.update (camelCase (trimStart key pfx)) v envConfig
              else envConfig)
       [] env"

text \<open>
  The specification's words: the remainder of a name after removing the first
  occurrence of the prefix.
\<close>

fun removeFirstOccurrence :: "string \<Rightarrow> string \<Rightarrow> string" where
  "removeFirstOccurrence target [] = []"
| "removeFirstOccurrence target (c # cs) =
     (if prefix target (c # cs) then drop (length target) (c # cs)
      else c # removeFirstOccurrence target cs)"

text \<open>
  lodash's \<open>camelCase\<close> on a name made of capital letters and underscores, the shape of
  the environment names in the examples: the words are the runs of letters between
  underscores, the first in lower case, each later one capitalised.
\<close>

definition to_lower :: "char \<Rightarrow> char" where
  "to_lower c =
     (if 65 \<le> (of_char c :: nat) \<and> (of_char c :: nat) \<le> 90 then char_of (of_char c + 32 :: nat) else c)"

definition to_upper :: "char \<Rightarrow> char" where
  "to_upper c =
     (if 97 \<le> (of_char c :: nat) \<and> (of_char c :: nat) \<le> 122 then char_of (of_char c - 32 :: nat) else c)"

definition capitalize :: "string \<Rightarrow> string" where
  "capitalize w = (case map to_lower w of [] \<Rightarrow> [] | c # cs \<Rightarrow> to_upper c # cs)"

definition camelCase_names :: "string \<Rightarrow> string" where
  "camelCase_names s =
     (case filter (\<lambda>w. w \<noteq> []) (split_on CHR ''_'' s) of
        [] \<Rightarrow> []
      | w # ws \<Rightarrow> map to_lower w @ concat (map capitalize ws))"

text \<open>
  The entries the specification describes, with the key as the code computes it: one
  for each variable whose name contains the prefix, in the order of the environment.
\<close>

definition selectedEntries ::
  "(string \<Rightarrow> string) \<Rightarrow> (string \<times> string) list \<Rightarrow> string \<Rightarrow> (string \<times> string) list" where
  "selectedEntries camelCase env pfx =
     map (\<lambda>(name, v). (camelCase (trimStart name pfx), v))
       (filter (\<lambda>(name, v). sublist pfx name) env)"

fun starts_outside :: "string \<Rightarrow> string \<Rightarrow> bool" where
  "starts_outside [] chars = True"
| "starts_outside (c # cs) chars = (c \<notin> set chars)"

section \<open>The \<open>semver\<close> library: parsing and comparing versions\<close>

text \<open>
  \<open>updateAvailable\<close> is \<open>semver.lt\<close>. The library (node-semver 5) parses each string
  with its strict grammar
  \<^verbatim>\<open>^v?(0|[1-9]\d*)\.(0|[1-9]\d*)\.(0|[1-9]\d*)(-ID(\.ID)*)?(\+BUILD(\.BUILD)*)?$\<close>
  after trimming white space, and throws a TypeError for a string longer than 256
  characters, a string the grammar rejects, or a component above
  \<open>Number.MAX_SAFE_INTEGER\<close>.
\<close>

text \<open>The decimal text of a number from 0 on, as \<open>String(n)\<close> gives it.\<close>

definition digit_of :: "int \<Rightarrow> char" where
  "digit_of d =
     (if d = 0 then CHR ''0'' else if d = 1 then CHR ''1'' else if d = 2 then CHR ''2''
      else if d = 3 then CHR ''3'' else if d = 4 then CHR ''4'' else if d = 5 then CHR ''5''
      else if d = 6 then CHR ''6'' else if d = 7 then CHR ''7'' else if d = 8 then CHR ''8''
      else CHR ''9'')"

function decimal :: "int \<Rightarrow> string" where
  "decimal n = (if n < 10 then [digit_of n] else decimal (n div 10) @ [digit_of (n mod 10)])"
  by pat_completeness auto
termination
  by (relation "measure nat") auto

declare decimal.simps [simp del]

text \<open>
  The unary \<open>+\<close> on a string of digits gives the nearest double (ties to even). A
  version has at most 256 characters, so the value is far below the largest double.
  \<open>excess n\<close> is the number of bits \<open>n\<close> has beyond 53.
\<close>

function excess :: "int \<Rightarrow> nat" where
  "excess n = (if n < 2 ^ 53 then 0 else Suc (excess (n div 2)))"
  by pat_completeness auto
termination
  by (relation "measure nat") auto

declare excess.simps [simp del]

definition toDouble :: "int \<Rightarrow> int" where
  "toDouble n =
     (if n < 2 ^ 53 then n
      else let e = excess n; q = n div 2 ^ e; r = n mod 2 ^ e; half = 2 ^ (e - 1)
           in (if r > half \<or> (r = half \<and> odd q) then q + 1 else q) * 2 ^ e)"

text \<open>
  A pre-release identifier as the library holds it: a number, or the string itself.
\<close>

datatype ident = NumId int | StrId string

record semver =
  major :: int
  minor :: int
  patch :: int
  pre_ids :: "ident list"

text \<open>
  \<open>String.prototype.trim\<close> removes white space and line terminators. A character here
  is a code unit below 256; of those, the ones removed are tab, line feed, vertical
  tab, form feed, carriage return, space and the no-break space.
\<close>

definition is_space :: "char \<Rightarrow> bool" where
  "is_space c =
     (c \<in> set [CHR 0x09, CHR 0x0A, CHR 0x0B, CHR 0x0C, CHR 0x0D, CHR '' '', CHR 0xA0])"

definition trim :: "string \<Rightarrow> string" where
  "trim s = rev (dropWhile is_space (rev (dropWhile is_space s)))"

definition is_alpha :: "char \<Rightarrow> bool" where
  "is_alpha c =
     ((65 \<le> (of_char c :: nat) \<and> (of_char c :: nat) \<le> 90)
      \<or> (97 \<le> (of_char c :: nat) \<and> (of_char c :: nat) \<le> 122))"

definition is_ident_char :: "char \<Rightarrow> bool" where
  "is_ident_char c = (is_digit c \<or> is_alpha c \<or> c = CHR ''-'')"

text \<open>\<open>0|[1-9]\d*\<close>\<close>

definition numericIdentifier :: "string \<Rightarrow> bool" where
  "numericIdentifier s =
     (case s of
        [] \<Rightarrow> False
      | c # cs \<Rightarrow> list_all is_digit s \<and> (if c = CHR ''0'' then cs = [] else True))"

text \<open>\<open>0|[1-9]\d*|\d*[a-zA-Z-][a-zA-Z0-9-]*\<close>\<close>

definition prereleaseIdentifier :: "string \<Rightarrow> bool" where
  "prereleaseIdentifier s =
     (s \<noteq> [] \<and> list_all is_ident_char s
      \<and> (if list_all is_digit s then numericIdentifier s else True))"

text \<open>\<open>[0-9A-Za-z-]+\<close>\<close>

definition buildIdentifier :: "string \<Rightarrow> bool" where
  "buildIdentifier s = (s \<noteq> [] \<and> list_all is_ident_char s)"

text \<open>
  \<^verbatim>\<open>if (/^[0-9]+$/.test(id)) { var num = +id; if (num >= 0 && num < MAX_SAFE_INTEGER) return num; }
  return id;\<close>
\<close>

definition toIdent :: "string \<Rightarrow> ident" where
  "toIdent s =
     (if s \<noteq> [] \<and> list_all is_digit s \<and> toDouble (decimal_value s) < MAX_SAFE_INTEGER
      then NumId (toDouble (decimal_value s))
      else StrId s)"

definition not_sign :: "char \<Rightarrow> bool" where
  "not_sign c = (c \<noteq> CHR ''-'' \<and> c \<noteq> CHR ''+'')"

text \<open>
  The three groups of the grammar in a string without its \<open>v\<close>: the main version is
  what precedes the first \<open>-\<close> or \<open>+\<close>; a \<open>-\<close> there starts the pre-release identifiers,
  which run to the next \<open>+\<close> or to the end; what follows a \<open>+\<close> is the build metadata.
\<close>

definition splitVersion :: "string \<Rightarrow> string \<times> string list \<times> string list" where
  "splitVersion s =
     (let main = takeWhile not_sign s;
          rest = dropWhile not_sign s;
          pre = (case rest of
                   c # r \<Rightarrow>
                     if c = CHR ''-'' then split_on CHR ''.'' (takeWhile (\<lambda>c. c \<noteq> CHR ''+'') r) else []
                 | [] \<Rightarrow> []);
          plus = (case rest of
                    c # r \<Rightarrow> if c = CHR ''-'' then dropWhile (\<lambda>c. c \<noteq> CHR ''+'') r else rest
                  | [] \<Rightarrow> []);
          build = (case plus of c # r \<Rightarrow> split_on CHR ''.'' r | [] \<Rightarrow> [])
      in (main, pre, build))"

definition strip_v :: "string \<Rightarrow> string" where
  "strip_v t = (case t of c # r \<Rightarrow> if c = CHR ''v'' then r else t | [] \<Rightarrow> t)"

text \<open>
  \<open>new SemVer(raw)\<close>: the length check, the match of the trimmed string, the three
  components as numbers with their range checks, and the pre-release identifiers. The
  build metadata is checked by the grammar and plays no part in comparisons.
\<close>

definition parseSemVer :: "string \<Rightarrow> js_error + semver" where
  "parseSemVer raw =
     (if length raw > 256 then Inl TypeError
      else
        case splitVersion (strip_v (trim raw)) of
          (main, pre, build) \<Rightarrow>
            (case split_on CHR ''.'' main of
               [ma, mi, pa] \<Rightarrow>
                 if numericIdentifier ma \<and> numericIdentifier mi \<and> numericIdentifier pa
                    \<and> list_all prereleaseIdentifier pre \<and> list_all buildIdentifier build
                 then if toDouble (decimal_value ma) > MAX_SAFE_INTEGER
                         \<or> toDouble (decimal_value mi) > MAX_SAFE_INTEGER
                         \<or> toDouble (decimal_value pa) > MAX_SAFE_INTEGER
                      then Inl TypeError
                      else Inr \<lparr>major = toDouble (decimal_value ma),
                                minor = toDouble (decimal_value mi),
                                patch = toDouble (decimal_value pa),
                                pre_ids = map toIdent pre\<rparr>
                 else Inl TypeError
             | _ \<Rightarrow> Inl TypeError))"

text \<open>
  JavaScript's \<open><\<close> on two strings: lexicographic by character code, a proper prefix
  first.
\<close>

fun string_lt :: "string \<Rightarrow> string \<Rightarrow> bool" where
  "string_lt [] [] = False"
| "string_lt [] (d # ds) = True"
| "string_lt (c # cs) [] = False"
| "string_lt (c # cs) (d # ds) =
     ((of_char c :: nat) < of_char d \<or> (c = d \<and> string_lt cs ds))"

text \<open>
  \<^verbatim>\<open>var numeric = /^[0-9]+$/;
  function compareIdentifiers(a, b) {
    var anum = numeric.test(a); var bnum = numeric.test(b);
    if (anum && bnum) { a = +a; b = +b; }
    return (anum && !bnum) ? -1 : (bnum && !anum) ? 1 : a < b ? -1 : a > b ? 1 : 0;
  }\<close>
  A number passes the test; a string passes when it is made of digits, and is then
  compared through its double. Two identifiers that both fail the test are strings.
\<close>

fun numeric_test :: "ident \<Rightarrow> bool" where
  "numeric_test (NumId n) = True"
| "numeric_test (StrId s) = (s \<noteq> [] \<and> list_all is_digit s)"

fun number_of :: "ident \<Rightarrow> int" where
  "number_of (NumId n) = n"
| "number_of (StrId s) = toDouble (decimal_value s)"

fun text_of :: "ident \<Rightarrow> string" where
  "text_of (StrId s) = s"
| "text_of (NumId n) = decimal n"

definition compareIdentifiers :: "ident \<Rightarrow> ident \<Rightarrow> int" where
  "compareIdentifiers a b =
     (let anum = numeric_test a; bnum = numeric_test b in
      if anum \<and> \<not> bnum then - 1
      else if bnum \<and> \<not> anum then 1
      else if anum \<and> bnum
        then (if number_of a < number_of b then - 1
              else if number_of a > number_of b then 1 else 0)
        else (if string_lt (text_of a) (text_of b) then - 1
              else if string_lt (text_of b) (text_of a) then 1 else 0))"

text \<open>\<open>compareMain\<close>: \<open>major || minor || patch\<close>, each compared as numbers.\<close>

definition compareMain :: "semver \<Rightarrow> semver \<Rightarrow> int" where
  "compareMain a b =
     (let c = compareIdentifiers (NumId (major a)) (NumId (major b)) in
      if c \<noteq> 0 then c
      else let c = compareIdentifiers (NumId (minor a)) (NumId (minor b)) in
           if c \<noteq> 0 then c
           else compareIdentifiers (NumId (patch a)) (NumId (patch b)))"

text \<open>
  The \<open>do ... while (++i)\<close> loop of \<open>comparePre\<close> over the two identifier lists from
  index \<open>i\<close> on; \<open>a === b\<close> holds of two equal numbers or two equal strings.
\<close>

fun comparePre_from :: "ident list \<Rightarrow> ident list \<Rightarrow> int" where
  "comparePre_from [] [] = 0"
| "comparePre_from (a # as) [] = 1"
| "comparePre_from [] (b # bs) = - 1"
| "comparePre_from (a # as) (b # bs) =
     (if a = b then comparePre_from as bs else compareIdentifiers a b)"

definition comparePre :: "semver \<Rightarrow> semver \<Rightarrow> int" where
  "comparePre a b =
     (if pre_ids a \<noteq> [] \<and> pre_ids b = [] then - 1
      else if pre_ids a = [] \<and> pre_ids b \<noteq> [] then 1
      else if pre_ids a = [] \<and> pre_ids b = [] then 0
      else comparePre_from (pre_ids a) (pre_ids b))"

definition compare_semver :: "semver \<Rightarrow> semver \<Rightarrow> int" where
  "compare_semver a b = (let c = compareMain a b in if c \<noteq> 0 then c else comparePre a b)"

text \<open>\<open>semver.lt(a, b)\<close>: \<open>new SemVer(a).compare(new SemVer(b)) < 0\<close>.\<close>

definition semver_lt :: "string \<Rightarrow> string \<Rightarrow> js_error + bool" where
  "semver_lt a b =
     (case parseSemVer a of
        Inl e \<Rightarrow> Inl e
      | Inr x \<Rightarrow>
          (case parseSemVer b of
             Inl e \<Rightarrow> Inl e
           | Inr y \<Rightarrow> Inr (compare_semver x y < 0)))"

section \<open>\<open>updates.js\<close>: \<open>updateAvailable\<close>\<close>

text \<open>
  \<^verbatim>\<open>exports.updateAvailable = function(version1, version2) { return semver.lt(version1, version2); };\<close>
\<close>

definition updateAvailable :: "string \<Rightarrow> string \<Rightarrow> js_error + bool" where
  "updateAvailable version1 version2 = semver_lt version1 version2"

section \<open>Semantic versions and their order, as the specification has them\<close>

text \<open>
  A semantic version is a major, minor and patch number and a list of pre-release
  identifiers, each a number or a string of letters, digits and hyphens that is not a
  number. Its precedence, in the specification's words: major, minor and patch compared
  numerically in that order; with these equal, a version with a pre-release precedes
  the one without; two pre-releases are compared identifier by identifier from the
  left, numbers numerically, other identifiers in ASCII order, a number before any
  other identifier, and a shorter list before a longer one it begins.
\<close>

fun ident_precedes :: "ident \<Rightarrow> ident \<Rightarrow> bool" where
  "ident_precedes (NumId a) (NumId b) = (a < b)"
| "ident_precedes (NumId a) (StrId b) = True"
| "ident_precedes (StrId a) (NumId b) = False"
| "ident_precedes (StrId a) (StrId b) = string_lt a b"

fun idents_precede :: "ident list \<Rightarrow> ident list \<Rightarrow> bool" where
  "idents_precede [] [] = False"
| "idents_precede [] (b # bs) = True"
| "idents_precede (a # as) [] = False"
| "idents_precede (a # as) (b # bs) =
     (ident_precedes a b \<or> (a = b \<and> idents_precede as bs))"

definition prerelease_precedes :: "ident list \<Rightarrow> ident list \<Rightarrow> bool" where
  "prerelease_precedes p q =
     (if p = [] then False else if q = [] then True else idents_precede p q)"

definition semver_precedes :: "semver \<Rightarrow> semver \<Rightarrow> bool" where
  "semver_precedes a b =
     (major a < major b
      \<or> (major a = major b \<and> minor a < minor b)
      \<or> (major a = major b \<and> minor a = minor b \<and> patch a < patch b)
      \<or> (major a = major b \<and> minor a = minor b \<and> patch a = patch b
          \<and> prerelease_precedes (pre_ids a) (pre_ids b)))"

text \<open>
  The text of a semantic version: the three numbers in decimal joined by dots, then
  \<open>-\<close> and the pre-release identifiers joined by dots when there are any, then \<open>+\<close>
  and the build identifiers joined by dots when there are any. A version string may
  carry a \<open>v\<close> in front and white space around it.
\<close>

fun ident_text :: "ident \<Rightarrow> string" where
  "ident_text (NumId n) = decimal n"
| "ident_text (StrId s) = s"

definition version_text :: "semver \<Rightarrow> string list \<Rightarrow> string" where
  "version_text v build =
     join_strings ''.'' [decimal (major v), decimal (minor v), decimal (patch v)]
     @ (if pre_ids v = [] then [] else CHR ''-'' # join_strings ''.'' (map ident_text (pre_ids v)))
     @ (if build = [] then [] else CHR ''+'' # join_strings ''.'' build)"

definition version_string :: "string \<Rightarrow> bool \<Rightarrow> semver \<Rightarrow> string list \<Rightarrow> string \<Rightarrow> string" where
  "version_string lead v_prefix v build trail =
     lead @ (if v_prefix then ''v'' else []) @ version_text v build @ trail"

text \<open>
  The versions the library holds exactly: components from 0 to
  \<open>Number.MAX_SAFE_INTEGER\<close>, numeric pre-release identifiers from 0 and below
  \<open>Number.MAX_SAFE_INTEGER\<close>, other identifiers non-empty, of letters, digits and
  hyphens, and not all digits.
\<close>

fun valid_ident :: "ident \<Rightarrow> bool" where
  "valid_ident (NumId n) = (0 \<le> n \<and> n < MAX_SAFE_INTEGER)"
| "valid_ident (StrId s) = (s \<noteq> [] \<and> list_all is_ident_char s \<and> \<not> list_all is_digit s)"

definition valid_semver :: "semver \<Rightarrow> bool" where
  "valid_semver v =
     (0 \<le> major v \<and> major v \<le> MAX_SAFE_INTEGER
      \<and> 0 \<le> minor v \<and> minor v \<le> MAX_SAFE_INTEGER
      \<and> 0 \<le> patch v \<and> patch v \<le> MAX_SAFE_INTEGER
      \<and> list_all valid_ident (pre_ids v))"

section \<open>Properties of \<open>merge\<close>\<close>

lemma baseUniq_dedup:
  "baseUniq xs kept = kept @ dedup (filter (\<lambda>y. \<not> list_ex (\<lambda>seen. sameValueZero seen y) kept) xs)"
proof (induction xs arbitrary: kept)
  case Nil
  then show ?case by simp
next
  case (Cons v xs)
  show ?case
  proof (cases "list_ex (\<lambda>seen. sameValueZero seen v) kept")
    case True
    then show ?thesis using Cons.IH [of kept] by simp
  next
    case False
    have "filter (\<lambda>y. \<not> list_ex (\<lambda>seen. sameValueZero seen y) (kept @ [v])) xs
          = filter (\<lambda>y. \<not> sameValueZero v y) (filter (\<lambda>y. \<not> list_ex (\<lambda>seen. sameValueZero seen y) kept) xs)"
      by (simp add: list_ex_iff conj_commute)
    then show ?thesis using False Cons.IH [of "kept @ [v]"] by simp
  qed
qed

lemma uniq_dedup: "uniq xs = dedup xs"
  by (simp add: uniq_def baseUniq_dedup)

text \<open>
  On a sequence of scalars the deduplicated sequence has no duplicates, the same
  elements, and is no longer than the sequence.
\<close>

lemma sameValueZero_scalar: "is_scalar x \<Longrightarrow> sameValueZero x y = (x = y)"
  by (cases x; cases y) simp_all

lemma dedup_scalars:
  "\<forall>x \<in> set xs. is_scalar x \<Longrightarrow>
     distinct (dedup xs) \<and> set (dedup xs) = set xs \<and> length (dedup xs) \<le> length xs"
proof (induction xs rule: dedup.induct)
  case 1
  then show ?case by simp
next
  case (2 x xs)
  let ?rest = "filter (\<lambda>y. \<not> sameValueZero x y) xs"
  have same: "\<And>y. sameValueZero x y = (x = y)" using 2 by (simp add: sameValueZero_scalar)
  have ih: "distinct (dedup ?rest) \<and> set (dedup ?rest) = set ?rest \<and> length (dedup ?rest) \<le> length ?rest"
    using 2 by simp
  have "x \<notin> set (dedup ?rest)" using ih same by simp
  moreover have "insert x (set ?rest) = insert x (set xs)" using same by auto
  moreover have "length (dedup ?rest) \<le> length xs"
    using ih length_filter_le [of "\<lambda>y. \<not> sameValueZero x y" xs] by linarith
  ultimately show ?case using ih by simp
qed

lemma map_of_assignMergeValue_other:
  "k \<noteq> key \<Longrightarrow> map_of (assignMergeValue object key v) k = map_of object k"
  by (simp add: assignMergeValue_def update_conv')

lemma map_of_assignMergeValue:
  "map_of (assignMergeValue object k v) k =
     (if v \<noteq> JUndef \<or> \<not> key_in k object then Some v else map_of object k)"
  by (simp add: assignMergeValue_def update_conv')

lemma key_in_assignMergeValue_other:
  "k \<noteq> key \<Longrightarrow> key_in k (assignMergeValue object key v) = key_in k object"
  by (auto simp: assignMergeValue_def key_in_def dom_update)

lemma safeGet_assignMergeValue_other:
  "k \<noteq> key \<Longrightarrow> safeGet (assignMergeValue object key v) k = safeGet object k"
  by (simp add: safeGet_def getOwn_def map_of_assignMergeValue_other)

lemma baseMerge_frame:
  "k \<notin> fst ` set source \<Longrightarrow> map_of (baseMerge object source) k = map_of object k"
  by (induction source arbitrary: object) (auto simp: map_of_assignMergeValue_other)

text \<open>
  What one key of the source does to the destination, whatever the other keys are:
  \<open>newValue\<close> is computed from the destination's value and assigned.
\<close>

definition newValue_at :: "jsobj \<Rightarrow> string \<Rightarrow> jsval \<Rightarrow> jsval" where
  "newValue_at object k f =
     (if k = ''__proto__'' \<and> isObject f then JUndef else mergeValue (safeGet object k) f)"

lemma baseMerge_key:
  "distinct (map fst source) \<Longrightarrow> map_of source k = Some f \<Longrightarrow>
   map_of (baseMerge object source) k
     = map_of (assignMergeValue object k (newValue_at object k f)) k"
proof (induction source arbitrary: object)
  case Nil
  then show ?case by simp
next
  case (Cons p source)
  obtain key sv where p: "p = (key, sv)" by (cases p)
  show ?case
  proof (cases "k = key")
    case True
    then have "f = sv" using Cons.prems p by simp
    moreover have "k \<notin> fst ` set source" using Cons.prems True p by auto
    ultimately show ?thesis using True p
      by (simp add: baseMerge_frame newValue_at_def)
  next
    case False
    then have "map_of source k = Some f" using Cons.prems p by simp
    moreover have "distinct (map fst source)" using Cons.prems by simp
    ultimately show ?thesis using Cons.IH False p
      by (simp add: newValue_at_def safeGet_assignMergeValue_other map_of_assignMergeValue
            key_in_assignMergeValue_other map_of_assignMergeValue_other)
  qed
qed

lemma baseMerge_key_defined:
  "distinct (map fst source) \<Longrightarrow> map_of source k = Some f \<Longrightarrow>
   newValue_at object k f \<noteq> JUndef \<Longrightarrow>
   map_of (baseMerge object source) k = Some (newValue_at object k f)"
  by (simp add: baseMerge_key map_of_assignMergeValue)

text \<open>
  Merging a value into a destination that holds nothing there copies it: lodash builds
  a fresh array or object and merges the source into it.
\<close>

lemma update_fresh_key:
  "k \<notin> fst ` set al \<Longrightarrow> AList.update k v al = al @ [(k, v)]"
  by (induction al) auto

lemma getOwn_fresh_key:
  "k \<notin> fst ` set al \<Longrightarrow> getOwn al k = JUndef"
proof -
  assume "k \<notin> fst ` set al"
  then have "map_of al k = None" by (simp add: map_of_eq_None_iff)
  then show ?thesis by (simp add: getOwn_def)
qed

lemma baseMerge_fresh:
  assumes "\<And>p. p \<in> set fs \<Longrightarrow> mergeValue JUndef (snd p) = snd p \<and> snd p \<noteq> JUndef"
    and "distinct (map fst fs)" and "fst ` set acc \<inter> fst ` set fs = {}"
    and "''__proto__'' \<notin> fst ` set fs"
  shows "baseMerge acc fs = acc @ fs"
  using assms
proof (induction fs arbitrary: acc)
  case Nil
  then show ?case by simp
next
  case (Cons p fs)
  obtain k v where p: "p = (k, v)" by (cases p)
  have fresh: "k \<notin> fst ` set acc" using Cons.prems(3) p by auto
  have k: "k \<noteq> ''__proto__''" using Cons.prems(4) p by auto
  have v: "mergeValue JUndef v = v \<and> v \<noteq> JUndef" using Cons.prems(1) [of p] p by simp
  have sg: "safeGet acc k = JUndef" using fresh by (simp add: safeGet_def getOwn_fresh_key)
  have step: "assignMergeValue acc k (mergeValue (safeGet acc k) v) = acc @ [(k, v)]"
    using fresh v sg by (simp add: assignMergeValue_def update_fresh_key)
  have "baseMerge (acc @ [(k, v)]) fs = (acc @ [(k, v)]) @ fs"
  proof (rule Cons.IH)
    show "\<And>q. q \<in> set fs \<Longrightarrow> mergeValue JUndef (snd q) = snd q \<and> snd q \<noteq> JUndef"
      using Cons.prems(1) by simp
    show "distinct (map fst fs)" using Cons.prems(2) by simp
    show "fst ` set (acc @ [(k, v)]) \<inter> fst ` set fs = {}"
      using Cons.prems(2,3) p by auto
    show "''__proto__'' \<notin> fst ` set fs" using Cons.prems(4) by simp
  qed
  then show ?case using p k step by simp
qed

lemma baseMergeArr_fresh:
  "(\<And>x. x \<in> set xs \<Longrightarrow> mergeValue JUndef x = x) \<Longrightarrow> baseMergeArr [] xs = xs"
  by (induction xs) simp_all

lemma mergeValue_clone: "wf_val v \<Longrightarrow> mergeValue JUndef v = v"
proof (induction v)
  case (JArr xs)
  then have "baseMergeArr [] xs = xs" by (intro baseMergeArr_fresh) simp
  then show ?case by (simp add: mergeValue.simps)
next
  case (JObj fs)
  have "baseMerge [] fs = [] @ fs"
  proof (rule baseMerge_fresh)
    fix p assume p: "p \<in> set fs"
    then have "wf_val (snd p) \<and> snd p \<noteq> JUndef" using JObj.prems by simp
    moreover have "snd p \<in> Basic_BNFs.snds p" by (cases p) simp
    ultimately show "mergeValue JUndef (snd p) = snd p \<and> snd p \<noteq> JUndef"
      using JObj.IH [OF p] by simp
  next
    show "distinct (map fst fs)" using JObj.prems by simp
  next
    show "''__proto__'' \<notin> fst ` set fs" using JObj.prems by simp
  qed simp
  then show ?case by (simp add: mergeValue.simps)
qed (simp_all add: mergeValue.simps)

lemma mergeValue_onto_scalar:
  assumes "\<not> is_array b" "\<not> is_plain_object b" "wf_val f"
  shows "mergeValue b f = f"
proof -
  have c: "customizer b f = JUndef" using assms(1) by (cases b) simp_all
  have a: "\<not> isArrayLikeObject b" using assms(2) by (cases b) simp_all
  have o: "(case b of JObj os \<Rightarrow> os | _ \<Rightarrow> []) = []" using assms(2) by (cases b) simp_all
  have "mergeValue b f = mergeValue JUndef f"
    using c a o by (cases f) (simp_all add: mergeValue.simps)
  then show ?thesis using assms(3) by (simp add: mergeValue_clone)
qed

text \<open>
  C1 (as amended). For objects \<open>base\<close> and \<open>overlay\<close> and a key \<open>k\<close>, the merged object
  holds at \<open>k\<close>:
  \<^item> \<open>base\<close>'s value when \<open>overlay\<close> has no such key.
  For a key other than \<open>__proto__\<close>:
  \<^item> when \<open>base\<close>'s value is a sequence: the deduplicated concatenation of \<open>base\<close>'s
    elements followed by \<open>overlay\<close>'s elements if \<open>overlay\<close>'s value is a sequence too,
    and followed by \<open>overlay\<close>'s value as one more element if it is not; elements are
    duplicates when \<open>_.uniq\<close> finds them equal, scalars by value, an object or array
    only with itself;
  \<^item> when \<open>base\<close>'s value is not a sequence and \<open>overlay\<close>'s value is a scalar: \<open>overlay\<close>'s
    value;
  \<^item> when both values are objects: their merge, by the same function;
  \<^item> when \<open>base\<close> has no value or a scalar there: \<open>overlay\<close>'s value, whatever it is.
  For the key \<open>__proto__\<close>: an object or sequence in \<open>overlay\<close> is dropped (\<open>base\<close> keeps
  what it has), a scalar in \<open>overlay\<close> wins.
\<close>

theorem merge_per_key:
  assumes "distinct (map fst overlay)"
  shows "(map_of overlay k = None \<longrightarrow>
            map_of (merge base (JObj overlay)) k = map_of base k)
       \<and> (k \<noteq> ''__proto__'' \<and> map_of base k = Some (JArr s) \<and> map_of overlay k = Some (JArr ys) \<longrightarrow>
            map_of (merge base (JObj overlay)) k = Some (JArr (dedup (s @ ys))))
       \<and> (k \<noteq> ''__proto__'' \<and> map_of base k = Some (JArr s) \<and> map_of overlay k = Some f
            \<and> \<not> is_array f \<longrightarrow>
            map_of (merge base (JObj overlay)) k = Some (JArr (dedup (s @ [f]))))
       \<and> (k \<noteq> ''__proto__'' \<and> \<not> is_array (getOwn base k) \<and> map_of overlay k = Some f
            \<and> is_scalar f \<longrightarrow>
            map_of (merge base (JObj overlay)) k = Some f)
       \<and> (k \<noteq> ''__proto__'' \<and> map_of base k = Some (JObj bo) \<and> map_of overlay k = Some (JObj fo) \<longrightarrow>
            map_of (merge base (JObj overlay)) k = Some (JObj (merge bo (JObj fo))))
       \<and> (k \<noteq> ''__proto__'' \<and> \<not> is_array (getOwn base k) \<and> \<not> is_plain_object (getOwn base k)
            \<and> map_of overlay k = Some f \<and> wf_val f \<and> f \<noteq> JUndef \<longrightarrow>
            map_of (merge base (JObj overlay)) k = Some f)
       \<and> (map_of overlay ''__proto__'' = Some f \<and> isObject f \<longrightarrow>
            map_of (merge base (JObj overlay)) ''__proto__'' = map_of base ''__proto__'')
       \<and> (map_of overlay ''__proto__'' = Some f \<and> is_scalar f \<longrightarrow>
            map_of (merge base (JObj overlay)) ''__proto__'' = Some f)"
proof -
  have key: "map_of (merge base (JObj overlay)) k = Some (mergeValue (getOwn base k) v)"
    if "map_of overlay k = Some v" "k \<noteq> ''__proto__''" "mergeValue (getOwn base k) v \<noteq> JUndef" for v
    using baseMerge_key_defined [OF assms that(1), of base] that(2,3)
    by (simp add: merge_def newValue_at_def safeGet_def)
  have proto: "map_of (merge base (JObj overlay)) ''__proto__''
        = map_of (assignMergeValue base ''__proto__'' (newValue_at base ''__proto__'' v)) ''__proto__''"
    if "map_of overlay ''__proto__'' = Some v" for v
    using baseMerge_key [OF assms that, of base] by (simp add: merge_def)
  show ?thesis
  proof (intro conjI impI)
    assume "map_of overlay k = None"
    then have "k \<notin> fst ` set overlay" by (simp add: map_of_eq_None_iff)
    then show "map_of (merge base (JObj overlay)) k = map_of base k"
      by (simp add: merge_def baseMerge_frame)
  next
    assume a: "k \<noteq> ''__proto__'' \<and> map_of base k = Some (JArr s) \<and> map_of overlay k = Some (JArr ys)"
    then have "mergeValue (getOwn base k) (JArr ys) = JArr (dedup (s @ ys))"
      by (simp add: getOwn_def mergeValue.simps uniq_dedup)
    then show "map_of (merge base (JObj overlay)) k = Some (JArr (dedup (s @ ys)))"
      using key [of "JArr ys"] a by simp
  next
    assume a: "k \<noteq> ''__proto__'' \<and> map_of base k = Some (JArr s) \<and> map_of overlay k = Some f
            \<and> \<not> is_array f"
    then have "concat_js s f = s @ [f]" by (cases f) simp_all
    then have "mergeValue (getOwn base k) f = JArr (dedup (s @ [f]))"
      using a by (simp add: getOwn_def mergeValue.simps uniq_dedup)
    then show "map_of (merge base (JObj overlay)) k = Some (JArr (dedup (s @ [f])))"
      using key [of f] a by simp
  next
    assume a: "k \<noteq> ''__proto__'' \<and> \<not> is_array (getOwn base k) \<and> map_of overlay k = Some f
            \<and> is_scalar f"
    then have "customizer (getOwn base k) f = JUndef" by (cases "getOwn base k") simp_all
    moreover have "(case f of JArr ys \<Rightarrow> x1 ys | JObj fs \<Rightarrow> x2 fs | _ \<Rightarrow> f) = f" for x1 x2
      using a by (cases f) simp_all
    ultimately have "mergeValue (getOwn base k) f = f" by (simp add: mergeValue.simps)
    moreover have "f \<noteq> JUndef" using a by (cases f) simp_all
    ultimately show "map_of (merge base (JObj overlay)) k = Some f"
      using key [of f] a by simp
  next
    assume a: "k \<noteq> ''__proto__'' \<and> map_of base k = Some (JObj bo) \<and> map_of overlay k = Some (JObj fo)"
    then have "mergeValue (getOwn base k) (JObj fo) = JObj (merge bo (JObj fo))"
      by (simp add: getOwn_def mergeValue.simps merge_def)
    then show "map_of (merge base (JObj overlay)) k = Some (JObj (merge bo (JObj fo)))"
      using key [of "JObj fo"] a by simp
  next
    assume a: "k \<noteq> ''__proto__'' \<and> \<not> is_array (getOwn base k) \<and> \<not> is_plain_object (getOwn base k)
            \<and> map_of overlay k = Some f \<and> wf_val f \<and> f \<noteq> JUndef"
    then have "mergeValue (getOwn base k) f = f" by (simp add: mergeValue_onto_scalar)
    then show "map_of (merge base (JObj overlay)) k = Some f"
      using key [of f] a by simp
  next
    assume a: "map_of overlay ''__proto__'' = Some f \<and> isObject f"
    then show "map_of (merge base (JObj overlay)) ''__proto__'' = map_of base ''__proto__''"
      using proto [of f]
      by (simp add: newValue_at_def map_of_assignMergeValue key_in_def objectPrototypeKeys_def)
  next
    assume a: "map_of overlay ''__proto__'' = Some f \<and> is_scalar f"
    then have "\<not> isObject f" "f \<noteq> JUndef" by (cases f; simp)+
    moreover have "mergeValue JUndef f = f" using a by (cases f) (simp_all add: mergeValue.simps)
    ultimately show "map_of (merge base (JObj overlay)) ''__proto__'' = Some f"
      using proto [of f] a
      by (simp add: newValue_at_def map_of_assignMergeValue safeGet_def)
  qed
qed

theorem merge_per_key_witness:
  "distinct (map fst [(''a'', JArr [JNum 2, JNum 3]), (''b'', JStr ''y''), (''c'', JObj [(''d'', JArr [JNull])])])
   \<and> map_of (merge [(''a'', JArr [JNum 1, JNum 2]), (''b'', JStr ''x'')]
        (JObj [(''a'', JArr [JNum 2, JNum 3]), (''b'', JStr ''y''), (''c'', JObj [(''d'', JArr [JNull])])])) ''a''
     = Some (JArr [JNum 1, JNum 2, JNum 3])
   \<and> map_of (merge [(''a'', JArr [JNum 1, JNum 2]), (''b'', JStr ''x'')]
        (JObj [(''a'', JArr [JNum 2, JNum 3]), (''b'', JStr ''y''), (''c'', JObj [(''d'', JArr [JNull])])])) ''b''
     = Some (JStr ''y'')
   \<and> map_of (merge [(''a'', JArr [JNum 1, JNum 2]), (''b'', JStr ''x'')]
        (JObj [(''a'', JArr [JNum 2, JNum 3]), (''b'', JStr ''y''), (''c'', JObj [(''d'', JArr [JNull])])])) ''c''
     = Some (JObj [(''d'', JArr [JNull])])"
proof -
  let ?base = "[(''a'', JArr [JNum 1, JNum 2]), (''b'', JStr ''x'')]"
  let ?overlay = "[(''a'', JArr [JNum 2, JNum 3]), (''b'', JStr ''y''), (''c'', JObj [(''d'', JArr [JNull])])]"
  have d: "distinct (map fst ?overlay)" by simp
  have "map_of (merge ?base (JObj ?overlay)) ''a'' = Some (JArr [JNum 1, JNum 2, JNum 3])"
    using merge_per_key [OF d, of "''a''" ?base "[JNum 1, JNum 2]" "[JNum 2, JNum 3]"] by simp
  moreover have "map_of (merge ?base (JObj ?overlay)) ''b'' = Some (JStr ''y'')"
    using merge_per_key [OF d, of "''b''" ?base _ _ "JStr ''y''"] by (simp add: getOwn_def)
  moreover have "map_of (merge ?base (JObj ?overlay)) ''c'' = Some (JObj [(''d'', JArr [JNull])])"
    using merge_per_key [OF d, of "''c''" ?base _ _ "JObj [(''d'', JArr [JNull])]"]
    by (simp add: getOwn_def)
  ultimately show ?thesis using d by blast
qed

text \<open>
  C1 as stated fails in three places. Where \<open>base\<close> holds a sequence and \<open>overlay\<close> a
  scalar, the scalar does not win, it is appended: \<open>merge({a: [1]}, {a: 2})\<close> is
  \<open>{a: [1, 2]}\<close>. Two equal objects in the two sequences both stay:
  \<open>merge({a: [{x: 1}]}, {a: [{x: 1}]})\<close> is \<open>{a: [{x: 1}, {x: 1}]}\<close>. An object under the
  key \<open>__proto__\<close> of \<open>overlay\<close> does not reach the result:
  \<open>merge({}, {"__proto__": {x: 1}, k: 1})\<close> is \<open>{k: 1}\<close>.
\<close>

theorem merge_scalar_onto_sequence_counterexample:
  "map_of (merge [(''a'', JArr [JNum 1])] (JObj [(''a'', JNum 2)])) ''a'' = Some (JArr [JNum 1, JNum 2])
   \<and> map_of (merge [(''a'', JArr [JNum 1])] (JObj [(''a'', JNum 2)])) ''a'' \<noteq> Some (JNum 2)
   \<and> map_of (merge [(''a'', JArr [JObj [(''x'', JNum 1)]])]
               (JObj [(''a'', JArr [JObj [(''x'', JNum 1)]])])) ''a''
       = Some (JArr [JObj [(''x'', JNum 1)], JObj [(''x'', JNum 1)]])
   \<and> merge [] (JObj [(''__proto__'', JObj [(''x'', JNum 1)]), (''k'', JNum 1)]) = [(''k'', JNum 1)]"
  by (simp add: merge_def safeGet_def getOwn_def mergeValue.simps uniq_def assignMergeValue_def
        key_in_def objectPrototypeKeys_def)

text \<open>
  C6 (as amended). \<open>merge\<close> leaves \<open>overlay\<close> as it was; \<open>base\<close> is updated in place and
  is the object returned, and it changes only at keys that \<open>overlay\<close> has: every other
  key of \<open>base\<close> keeps its value.
\<close>

theorem merge_effect_frame:
  "merge_effect base (JObj overlay) = (returned, base', overlay') \<Longrightarrow>
     overlay' = JObj overlay \<and> base' = returned
     \<and> (\<forall>k. k \<notin> fst ` set overlay \<longrightarrow> map_of base' k = map_of base k)"
  by (auto simp: merge_effect_def Let_def merge_def baseMerge_frame)

theorem merge_effect_frame_witness:
  "merge_effect [(''a'', JNum 1), (''b'', JNum 5)] (JObj [(''a'', JNum 2)])
     = ([(''a'', JNum 2), (''b'', JNum 5)], [(''a'', JNum 2), (''b'', JNum 5)], JObj [(''a'', JNum 2)])
   \<and> map_of [(''a'', JNum 2), (''b'', JNum 5)] ''b'' = map_of [(''a'', JNum 1), (''b'', JNum 5)] ''b''"
proof -
  have run: "merge_effect [(''a'', JNum 1), (''b'', JNum 5)] (JObj [(''a'', JNum 2)])
     = ([(''a'', JNum 2), (''b'', JNum 5)], [(''a'', JNum 2), (''b'', JNum 5)], JObj [(''a'', JNum 2)])"
    by (simp add: merge_effect_def Let_def merge_def safeGet_def getOwn_def mergeValue.simps
        assignMergeValue_def key_in_def objectPrototypeKeys_def)
  show ?thesis using run merge_effect_frame [OF run] by simp
qed

text \<open>
  C6 as stated fails for \<open>base\<close>: after \<open>merge({a: 1}, {a: 2})\<close> the caller's \<open>base\<close> is
  \<open>{a: 2}\<close>.
\<close>

theorem merge_mutates_base_counterexample:
  "fst (snd (merge_effect [(''a'', JNum 1)] (JObj [(''a'', JNum 2)]))) = [(''a'', JNum 2)]
   \<and> fst (snd (merge_effect [(''a'', JNum 1)] (JObj [(''a'', JNum 2)]))) \<noteq> [(''a'', JNum 1)]"
  by (simp add: merge_effect_def Let_def merge_def safeGet_def getOwn_def mergeValue.simps
        assignMergeValue_def key_in_def objectPrototypeKeys_def)

section \<open>Properties of \<open>loadFiles\<close>\<close>

lemma loadFiles_from_ok:
  "\<forall>f \<in> set files. \<not> is_failing (fs f) \<Longrightarrow>
   loadFiles_from fs conf files = Inr (foldl merge conf (parsed_documents fs files))"
proof (induction files arbitrary: conf)
  case Nil
  then show ?case by simp
next
  case (Cons p files)
  then show ?case by (cases "fs p") simp_all
qed

lemma loadFiles_from_fail:
  "\<forall>f \<in> set pre. \<not> is_failing (fs f) \<Longrightarrow> fs bad = Failing e \<Longrightarrow>
   loadFiles_from fs conf (pre @ bad # post) = Inl e"
proof (induction pre arbitrary: conf)
  case Nil
  then show ?case by simp
next
  case (Cons p pre)
  then show ?case by (cases "fs p") simp_all
qed

lemma loadFiles_from_skip:
  "loadFiles_from fs conf files = loadFiles_from fs conf (filter (\<lambda>f. fs f \<noteq> Missing) files)"
proof (induction files arbitrary: conf)
  case Nil
  then show ?case by simp
next
  case (Cons p files)
  then show ?case by (cases "fs p") simp_all
qed

lemma parsed_documents_missing:
  "\<forall>f \<in> set files. fs f = Missing \<Longrightarrow> parsed_documents fs files = []"
  by (induction files) simp_all

text \<open>
  C7. \<open>loadFiles\<close> starts from the empty configuration and merges the documents of the
  existing files in the order of the paths; a missing path is skipped; the first file
  that exists and does not parse makes the call fail with that file's error. Over no
  paths, and over missing paths only, the result is the empty configuration.
\<close>

theorem loadFiles_spec:
  "loadFiles fs [] = Inr []
   \<and> ((\<forall>f \<in> set files. fs f = Missing) \<longrightarrow> loadFiles fs files = Inr [])
   \<and> loadFiles fs files = loadFiles fs (filter (\<lambda>f. fs f \<noteq> Missing) files)
   \<and> ((\<forall>f \<in> set files. \<not> is_failing (fs f)) \<longrightarrow>
        loadFiles fs files = Inr (foldl merge [] (parsed_documents fs files)))
   \<and> (files = pre @ bad # post \<and> (\<forall>f \<in> set pre. \<not> is_failing (fs f)) \<and> fs bad = Failing e \<longrightarrow>
        loadFiles fs files = Inl e)"
proof (intro conjI impI)
  show "loadFiles fs [] = Inr []" by (simp add: loadFiles_def)
next
  assume a: "\<forall>f \<in> set files. fs f = Missing"
  then have "\<forall>f \<in> set files. \<not> is_failing (fs f)" by simp
  then show "loadFiles fs files = Inr []"
    using a by (simp add: loadFiles_def loadFiles_from_ok parsed_documents_missing)
next
  show "loadFiles fs files = loadFiles fs (filter (\<lambda>f. fs f \<noteq> Missing) files)"
    unfolding loadFiles_def by (rule loadFiles_from_skip)
next
  assume "\<forall>f \<in> set files. \<not> is_failing (fs f)"
  then show "loadFiles fs files = Inr (foldl merge [] (parsed_documents fs files))"
    by (simp add: loadFiles_def loadFiles_from_ok)
next
  assume "files = pre @ bad # post \<and> (\<forall>f \<in> set pre. \<not> is_failing (fs f)) \<and> fs bad = Failing e"
  then show "loadFiles fs files = Inl e"
    by (simp add: loadFiles_def loadFiles_from_fail)
qed

theorem loadFiles_spec_witness:
  "loadFiles example_fs [''none.yml'', ''gone.yml''] = Inr []
   \<and> loadFiles example_fs [''a.yml'', ''none.yml'', ''b.yml'']
       = Inr [(''level'', JStr ''warn''), (''dirs'', JArr [JStr ''x'', JStr ''y''])]
   \<and> loadFiles example_fs [''a.yml'', ''bad.yml'', ''b.yml''] = Inl ''YAMLException''"
proof -
  have absent: "\<forall>f \<in> set [''none.yml'', ''gone.yml'']. example_fs f = Missing"
    by (simp add: example_fs_def)
  have sound: "\<forall>f \<in> set [''a.yml'', ''none.yml'', ''b.yml'']. \<not> is_failing (example_fs f)"
    by (simp add: example_fs_def)
  have broken: "[''a.yml'', ''bad.yml'', ''b.yml''] = [''a.yml''] @ ''bad.yml'' # [''b.yml'']
      \<and> (\<forall>f \<in> set [''a.yml'']. \<not> is_failing (example_fs f))
      \<and> example_fs ''bad.yml'' = Failing ''YAMLException''"
    by (simp add: example_fs_def)
  have docs: "foldl merge [] (parsed_documents example_fs [''a.yml'', ''none.yml'', ''b.yml''])
      = [(''level'', JStr ''warn''), (''dirs'', JArr [JStr ''x'', JStr ''y''])]"
    by (simp add: example_fs_def merge_def safeGet_def getOwn_def mergeValue.simps uniq_def
        assignMergeValue_def key_in_def objectPrototypeKeys_def)
  have "loadFiles example_fs [''none.yml'', ''gone.yml''] = Inr []"
    using loadFiles_spec [of example_fs "[''none.yml'', ''gone.yml'']"] absent by blast
  moreover have "loadFiles example_fs [''a.yml'', ''none.yml'', ''b.yml'']
       = Inr [(''level'', JStr ''warn''), (''dirs'', JArr [JStr ''x'', JStr ''y''])]"
    using loadFiles_spec [of example_fs "[''a.yml'', ''none.yml'', ''b.yml'']"] sound docs by metis
  moreover have "loadFiles example_fs [''a.yml'', ''bad.yml'', ''b.yml''] = Inl ''YAMLException''"
    using loadFiles_spec [of example_fs "[''a.yml'', ''bad.yml'', ''b.yml'']"
            "[''a.yml'']" "''bad.yml''" "[''b.yml'']" "''YAMLException''"] broken by blast
  ultimately show ?thesis by blast
qed

section \<open>Properties of \<open>fetch\<close>\<close>

text \<open>
  C3 (as amended). With one reading \<open>now\<close> of the clock: \<open>fetch\<close> returns true when
  there is no cached record; for a record whose \<open>expires\<close> is the number \<open>e\<close> it returns
  true when \<open>now > e\<close> and false when \<open>now \<le> e\<close>.
\<close>

theorem fetch_expiry:
  "fetch stringToNumber JUndef now = Inr True
   \<and> (map_of cached ''expires'' = Some (JNum e) \<longrightarrow>
        fetch stringToNumber (JObj cached) now = Inr (e < now))"
  by (auto simp: fetch_def getOwn_def)

theorem fetch_expiry_witness:
  "map_of [(''version'', JStr ''3.1.0''), (''expires'', JNum 1700000000000)] ''expires''
     = Some (JNum 1700000000000)
   \<and> fetch digitsToNumber (JObj [(''version'', JStr ''3.1.0''), (''expires'', JNum 1700000000000)])
        1700000000001 = Inr True
   \<and> fetch digitsToNumber (JObj [(''version'', JStr ''3.1.0''), (''expires'', JNum 1700000000000)])
        1699999900000 = Inr False"
  using fetch_expiry [of digitsToNumber 1700000000001
          "[(''version'', JStr ''3.1.0''), (''expires'', JNum 1700000000000)]" 1700000000000]
        fetch_expiry [of digitsToNumber 1699999900000
          "[(''version'', JStr ''3.1.0''), (''expires'', JNum 1700000000000)]" 1700000000000]
  by simp

text \<open>
  C3 as stated fails at the boundary: at \<open>now = expires\<close> the claim wants true and
  \<open>fetch\<close> returns false.
\<close>

theorem fetch_boundary_counterexample:
  "fetch digitsToNumber (JObj [(''expires'', JNum 1700000000000)]) 1700000000000 = Inr False"
  by (simp add: fetch_def getOwn_def)

text \<open>
  C10 (as amended). For every truthy value \<open>data\<close>: when \<open>data.expires\<close> is absent, or
  its conversion to a number gives NaN, \<open>fetch\<close> returns true and does not fail.
\<close>

theorem fetch_missing_expires:
  "truthy data \<Longrightarrow>
     (readProp data ''expires'' = Inr JUndef \<longrightarrow> fetch stringToNumber data now = Inr True)
   \<and> (readProp data ''expires'' = Inr x \<and> toNumber stringToNumber x = Inr None \<longrightarrow>
        fetch stringToNumber data now = Inr True)"
  by (simp add: fetch_def)

theorem fetch_missing_expires_witness:
  "truthy (JObj [(''version'', JStr ''3.0.0'')])
   \<and> readProp (JObj [(''version'', JStr ''3.0.0'')]) ''expires'' = Inr JUndef
   \<and> fetch digitsToNumber (JObj [(''version'', JStr ''3.0.0'')]) 1700000000000 = Inr True"
proof -
  have t: "truthy (JObj [(''version'', JStr ''3.0.0'')])" by simp
  have r: "readProp (JObj [(''version'', JStr ''3.0.0'')]) ''expires'' = Inr JUndef"
    by (simp add: getOwn_def)
  show ?thesis using t r fetch_missing_expires [OF t, of digitsToNumber 1700000000000] by blast
qed

text \<open>
  C10 as stated fails for an \<open>expires\<close> that is not a number but converts to one: the
  string \<open>"99999999999999"\<close> compares as that number and \<open>fetch\<close> returns false. An
  \<open>expires\<close> object with an own \<open>toString\<close> property makes the comparison throw.
\<close>

theorem fetch_string_expires_counterexample:
  "fetch digitsToNumber (JObj [(''expires'', JStr ''99999999999999'')]) 1700000000000 = Inr False
   \<and> fetch digitsToNumber (JObj [(''expires'', JObj [(''toString'', JNum 1)])]) 1700000000000
       = Inl TypeError"
  by (simp add: fetch_def getOwn_def digitsToNumber_def is_digit_def decimal_value_def digit_value_def)

section \<open>Properties of \<open>refresh\<close>\<close>

lemma trimStart_v: "trimStart s ''v'' = dropWhile (\<lambda>c. c = CHR ''v'') s"
  by (simp add: trimStart_def)

text \<open>
  C4. When the remote call fails, \<open>refresh\<close> returns (it is a total function: nothing
  is raised) the record built from \<open>currentVersion\<close> alone: its leading \<open>v\<close> characters
  stripped, the empty URL, and \<open>now + 86400000\<close>. The same record is returned when the
  response is resolved but the \<open>.then\<close> callback throws while reading it.
\<close>

theorem refresh_failure:
  "refresh currentVersion Rejected now
     = \<lparr>version = dropWhile (\<lambda>c. c = CHR ''v'') currentVersion, url = JStr [], expires = now + 86400000\<rparr>
   \<and> (buildRecord currentVersion response now = Inl e \<longrightarrow>
        refresh currentVersion (Resolved response) now
          = \<lparr>version = dropWhile (\<lambda>c. c = CHR ''v'') currentVersion, url = JStr [],
              expires = now + 86400000\<rparr>)"
  by (simp add: fallback_def trimStart_v)

theorem refresh_failure_witness:
  "buildRecord ''v3.0.0'' (JObj [(''data'', JArr [JNull])]) 1700000000000 = Inl TypeError
   \<and> refresh ''v3.0.0'' (Resolved (JObj [(''data'', JArr [JNull])])) 1700000000000
       = \<lparr>version = ''3.0.0'', url = JStr [], expires = 1700086400000\<rparr>
   \<and> refresh ''v3.0.0'' Rejected 1700000000000
       = \<lparr>version = ''3.0.0'', url = JStr [], expires = 1700086400000\<rparr>"
proof -
  have thrown: "buildRecord ''v3.0.0'' (JObj [(''data'', JArr [JNull])]) 1700000000000 = Inl TypeError"
    by (simp add: buildRecord_def getOwn_def eligible_def)
  show ?thesis
    using thrown
      refresh_failure [of "''v3.0.0''" 1700000000000 "JObj [(''data'', JArr [JNull])]" TypeError]
    by simp
qed

lemma eligible_release_js:
  "eligible (release_js r) = Inr (\<not> draft r \<and> \<not> prerelease r)"
  by (simp add: eligible_def release_js_def getOwn_def)

lemma find_js_releases:
  "find_js eligible (map release_js listing)
     = Inr (case List.find (\<lambda>r. \<not> draft r \<and> \<not> prerelease r) listing of
              None \<Rightarrow> JUndef
            | Some r \<Rightarrow> release_js r)"
  by (induction listing) (simp_all add: eligible_release_js)

lemma get_or_release_js:
  "get_or (release_js r) ''tag_name'' d = JStr (tag_name r)"
  "get_or (release_js r) ''html_url'' d = JStr (html_url r)"
  by (simp_all add: release_js_def getOwn_def)

text \<open>
  C5. For a response whose \<open>data\<close> is a listing of releases, \<open>refresh\<close> takes the
  first release that is neither a draft nor a pre-release and returns its tag with the
  leading \<open>v\<close> characters stripped, its web URL, and \<open>now + 86400000\<close>; when the
  listing has no such release, the version is \<open>currentVersion\<close> stripped the same
  way and the URL is empty.
\<close>

theorem refresh_listing:
  "map_of response ''data'' = Some (JArr (map release_js listing)) \<Longrightarrow>
   refresh currentVersion (Resolved (JObj response)) now =
     (case List.find (\<lambda>r. \<not> draft r \<and> \<not> prerelease r) listing of
        Some r \<Rightarrow> \<lparr>version = dropWhile (\<lambda>c. c = CHR ''v'') (tag_name r),
                    url = JStr (html_url r), expires = now + 86400000\<rparr>
      | None \<Rightarrow> \<lparr>version = dropWhile (\<lambda>c. c = CHR ''v'') currentVersion,
                  url = JStr [], expires = now + 86400000\<rparr>)"
  by (simp add: buildRecord_def getOwn_def find_js_releases get_or_release_js
        lodash_toString_def trimStart_v split: option.split)

theorem refresh_listing_witness:
  "map_of [(''data'', JArr (map release_js
      [\<lparr>tag_name = ''v3.2.0-beta'', html_url = ''https://example.org/beta'', draft = False,
          prerelease = True, other_fields = []\<rparr>,
       \<lparr>tag_name = ''v3.1.0'', html_url = ''https://example.org/3.1.0'', draft = False,
          prerelease = False, other_fields = []\<rparr>]))] ''data''
     = Some (JArr (map release_js
      [\<lparr>tag_name = ''v3.2.0-beta'', html_url = ''https://example.org/beta'', draft = False,
          prerelease = True, other_fields = []\<rparr>,
       \<lparr>tag_name = ''v3.1.0'', html_url = ''https://example.org/3.1.0'', draft = False,
          prerelease = False, other_fields = []\<rparr>]))
   \<and> refresh ''3.0.0'' (Resolved (JObj [(''data'', JArr (map release_js
      [\<lparr>tag_name = ''v3.2.0-beta'', html_url = ''https://example.org/beta'', draft = False,
          prerelease = True, other_fields = []\<rparr>,
       \<lparr>tag_name = ''v3.1.0'', html_url = ''https://example.org/3.1.0'', draft = False,
          prerelease = False, other_fields = []\<rparr>]))])) 1700000000000
     = \<lparr>version = ''3.1.0'', url = JStr ''https://example.org/3.1.0'', expires = 1700086400000\<rparr>"
  using refresh_listing [of "[(''data'', JArr (map release_js
      [\<lparr>tag_name = ''v3.2.0-beta'', html_url = ''https://example.org/beta'', draft = False,
          prerelease = True, other_fields = []\<rparr>,
       \<lparr>tag_name = ''v3.1.0'', html_url = ''https://example.org/3.1.0'', draft = False,
          prerelease = False, other_fields = []\<rparr>]))]"
     "[\<lparr>tag_name = ''v3.2.0-beta'', html_url = ''https://example.org/beta'', draft = False,
          prerelease = True, other_fields = []\<rparr>,
       \<lparr>tag_name = ''v3.1.0'', html_url = ''https://example.org/3.1.0'', draft = False,
          prerelease = False, other_fields = []\<rparr>]" "''3.0.0''" 1700000000000]
  by simp

section \<open>Properties of \<open>updatePath\<close>\<close>


section \<open>Properties of \<open>loadEnvs\<close>\<close>

lemma loadEnvs_fold:
  "map_of (foldl (\<lambda>envConfig (key, v).
              if includes_js key pfx
              then AList.update (camelCase (trimStart key pfx)) v envConfig
              else envConfig) acc env)
   = map_of (rev (selectedEntries camelCase env pfx) @ acc)"
proof (induction env arbitrary: acc)
  case Nil
  then show ?case by (simp add: selectedEntries_def)
next
  case (Cons p env)
  obtain name v where p: "p = (name, v)" by (cases p)
  show ?case
  proof (cases "sublist pfx name")
    case True
    have "map_of (rev (selectedEntries camelCase env pfx)
                   @ AList.update (camelCase (trimStart name pfx)) v acc)
          = map_of (rev (selectedEntries camelCase env pfx)
                   @ (camelCase (trimStart name pfx), v) # acc)"
      by (simp add: update_conv')
    then show ?thesis
      using Cons.IH [of "AList.update (camelCase (trimStart name pfx)) v acc"] p True
      by (simp add: includes_js_def selectedEntries_def)
  next
    case False
    then show ?thesis
      using Cons.IH [of acc] p by (simp add: includes_js_def selectedEntries_def)
  qed
qed

lemma trimStart_prefix:
  "starts_outside rest pfx \<Longrightarrow> trimStart (pfx @ rest) pfx = rest"
proof -
  assume a: "starts_outside rest pfx"
  have "dropWhile (\<lambda>c. c \<in> set pfx) (pfx @ rest) = dropWhile (\<lambda>c. c \<in> set pfx) rest"
    by (rule dropWhile_append2) simp
  moreover have "dropWhile (\<lambda>c. c \<in> set pfx) rest = rest" using a by (cases rest) simp_all
  ultimately show ?thesis by (simp add: trimStart_def)
qed

lemma trimStart_outside:
  "starts_outside name pfx \<Longrightarrow> trimStart name pfx = name"
  by (cases name) (simp_all add: trimStart_def)

text \<open>
  C2 (as amended). \<open>loadEnvs\<close> selects exactly the variables whose name contains the
  prefix, and the result maps the key of each to its raw value (the later variable
  where two give the same key). The key of a name that begins with the prefix, with a
  remainder that is empty or begins with a character not occurring in the prefix, is
  the camel-cased remainder. The key of a name that begins with a character not
  occurring in the prefix (the prefix comes later in it) is the camel-cased name:
  nothing is removed.
\<close>

theorem loadEnvs_selected:
  "map_of (loadEnvs camelCase env pfx) = map_of (rev (selectedEntries camelCase env pfx))
   \<and> (starts_outside rest pfx \<longrightarrow>
        selectedEntries camelCase [(pfx @ rest, v)] pfx = [(camelCase rest, v)])
   \<and> (sublist pfx name \<and> starts_outside name pfx \<longrightarrow>
        selectedEntries camelCase [(name, v)] pfx = [(camelCase name, v)])"
  using loadEnvs_fold [of pfx camelCase "[]" env]
  by (simp add: loadEnvs_def selectedEntries_def trimStart_prefix trimStart_outside)

theorem loadEnvs_selected_witness:
  "starts_outside ''FOO'' ''LANDO_''
   \<and> sublist ''LANDO_'' ''MY_LANDO_X'' \<and> starts_outside ''MY_LANDO_X'' ''LANDO_''
   \<and> selectedEntries camelCase_names [(''LANDO_'' @ ''FOO'', ''1'')] ''LANDO_'' = [(''foo'', ''1'')]
   \<and> selectedEntries camelCase_names [(''MY_LANDO_X'', ''2'')] ''LANDO_'' = [(''myLandoX'', ''2'')]
   \<and> map_of (loadEnvs camelCase_names
        [(''LANDO_FOO'', ''1''), (''HOME'', ''/root''), (''MY_LANDO_X'', ''2'')] ''LANDO_'')
      = map_of [(''myLandoX'', ''2''), (''foo'', ''1'')]"
proof -
  have a: "starts_outside ''FOO'' ''LANDO_''" by simp
  have b: "sublist ''LANDO_'' ''MY_LANDO_X'' \<and> starts_outside ''MY_LANDO_X'' ''LANDO_''"
    by (simp add: sublist_code)
  have c1: "camelCase_names ''FOO'' = ''foo''" by code_simp
  have c2: "camelCase_names ''MY_LANDO_X'' = ''myLandoX''" by code_simp
  have s: "rev (selectedEntries camelCase_names
        [(''LANDO_FOO'', ''1''), (''HOME'', ''/root''), (''MY_LANDO_X'', ''2'')] ''LANDO_'')
      = [(''myLandoX'', ''2''), (''foo'', ''1'')]"
    by code_simp
  show ?thesis
    using a b c1 c2 s
      loadEnvs_selected [of camelCase_names
        "[(''LANDO_FOO'', ''1''), (''HOME'', ''/root''), (''MY_LANDO_X'', ''2'')]" "''LANDO_''"
        "''FOO''" "''1''" "''MY_LANDO_X''"]
      loadEnvs_selected [of camelCase_names
        "[(''LANDO_FOO'', ''1''), (''HOME'', ''/root''), (''MY_LANDO_X'', ''2'')]" "''LANDO_''"
        "''FOO''" "''2''" "''MY_LANDO_X''"]
    by simp
qed

text \<open>
  C2 as stated fails. A prefix that occurs later in the name is not removed:
  \<open>MY_LANDO_X\<close> is stored under \<open>myLandoX\<close>, not under \<open>myX\<close>. And
  \<open>_.trimStart(key, prefix)\<close> removes every leading character that occurs anywhere in
  \<open>prefix\<close>, not the prefix: \<open>LANDO_DOMAIN\<close> loses \<open>LANDO_\<close> and then \<open>DO\<close>, and is stored
  under \<open>main\<close>, not under \<open>domain\<close>.
\<close>

theorem loadEnvs_first_occurrence_counterexample:
  "loadEnvs camelCase_names [(''MY_LANDO_X'', ''2'')] ''LANDO_'' = [(''myLandoX'', ''2'')]
   \<and> camelCase_names (removeFirstOccurrence ''LANDO_'' ''MY_LANDO_X'') = ''myX''
   \<and> loadEnvs camelCase_names [(''LANDO_DOMAIN'', ''lndo.site'')] ''LANDO_'' = [(''main'', ''lndo.site'')]
   \<and> camelCase_names (removeFirstOccurrence ''LANDO_'' ''LANDO_DOMAIN'') = ''domain''"
  by code_simp

text \<open>
  The second failure does not depend on how \<open>camelCase\<close> works: whatever it is, the
  variable \<open>LANDO_DOMAIN\<close> is stored under the key that \<open>camelCase\<close> gives \<open>MAIN\<close>.
\<close>

lemma loadEnvs_trims_characters:
  "loadEnvs camelCase [(''LANDO_DOMAIN'', ''lndo.site'')] ''LANDO_'' = [(camelCase ''MAIN'', ''lndo.site'')]
   \<and> removeFirstOccurrence ''LANDO_'' ''LANDO_DOMAIN'' = ''DOMAIN''"
  by (simp add: loadEnvs_def includes_js_def trimStart_def sublist_code)

section \<open>Properties of \<open>updateAvailable\<close>\<close>

lemma toDouble_exact: "n \<le> MAX_SAFE_INTEGER \<Longrightarrow> toDouble n = n"
  by (simp add: toDouble_def MAX_SAFE_INTEGER_def)

lemma string_lt_irrefl: "\<not> string_lt s s"
  by (induction s) simp_all

lemma ident_precedes_irrefl: "\<not> ident_precedes x x"
  by (cases x) (simp_all add: string_lt_irrefl)

lemma compareIdentifiers_NumId:
  "compareIdentifiers (NumId a) (NumId b) = (if a < b then - 1 else if a > b then 1 else 0)"
  by (simp add: compareIdentifiers_def)

lemma compareIdentifiers_neg:
  "valid_ident x \<Longrightarrow> valid_ident y \<Longrightarrow> (compareIdentifiers x y < 0) = ident_precedes x y"
  by (cases x; cases y) (auto simp: compareIdentifiers_def)

lemma comparePre_from_neg:
  "list_all valid_ident p \<Longrightarrow> list_all valid_ident q \<Longrightarrow>
   (comparePre_from p q < 0) = idents_precede p q"
proof (induction p q rule: comparePre_from.induct)
  case (4 a as b bs)
  then show ?case
    by (cases "a = b") (simp_all add: compareIdentifiers_neg ident_precedes_irrefl)
qed simp_all

lemma comparePre_neg:
  "list_all valid_ident (pre_ids a) \<Longrightarrow> list_all valid_ident (pre_ids b) \<Longrightarrow>
   (comparePre a b < 0) = prerelease_precedes (pre_ids a) (pre_ids b)"
  by (simp add: comparePre_def prerelease_precedes_def comparePre_from_neg)

lemma compareMain_zero:
  "(compareMain a b = 0) = (major a = major b \<and> minor a = minor b \<and> patch a = patch b)"
  by (auto simp: compareMain_def Let_def compareIdentifiers_NumId)

lemma compareMain_neg:
  "(compareMain a b < 0) =
     (major a < major b \<or> (major a = major b \<and> minor a < minor b)
      \<or> (major a = major b \<and> minor a = minor b \<and> patch a < patch b))"
  by (auto simp: compareMain_def Let_def compareIdentifiers_NumId)

lemma compare_semver_neg:
  assumes "valid_semver a" "valid_semver b"
  shows "(compare_semver a b < 0) = semver_precedes a b"
proof -
  have pre: "(comparePre a b < 0) = prerelease_precedes (pre_ids a) (pre_ids b)"
    using assms by (simp add: valid_semver_def comparePre_neg)
  show ?thesis
  proof (cases "compareMain a b = 0")
    case True
    then show ?thesis
      using compareMain_neg [of a b] compareMain_zero [of a b] pre
      by (simp add: compare_semver_def Let_def semver_precedes_def)
  next
    case False
    then show ?thesis
      using compareMain_neg [of a b] compareMain_zero [of a b]
      by (auto simp: compare_semver_def Let_def semver_precedes_def)
  qed
qed


lemma is_digit_digit_of: "is_digit (digit_of d)"
  by (simp add: digit_of_def is_digit_def)

lemma digit_value_digit_of: "0 \<le> d \<Longrightarrow> d < 10 \<Longrightarrow> digit_value (digit_of d) = d"
proof -
  assume "0 \<le> d" "d < 10"
  then have "d = 0 \<or> d = 1 \<or> d = 2 \<or> d = 3 \<or> d = 4 \<or> d = 5 \<or> d = 6 \<or> d = 7 \<or> d = 8 \<or> d = 9"
    by arith
  then show ?thesis by (auto simp: digit_of_def digit_value_def)
qed

lemma digit_of_nonzero: "0 < d \<Longrightarrow> digit_of d \<noteq> CHR ''0''"
  by (simp add: digit_of_def)

lemma decimal_digits: "list_all is_digit (decimal n)"
  by (induction n rule: decimal.induct) (subst decimal.simps, simp add: is_digit_digit_of)

lemma decimal_nonempty: "decimal n \<noteq> []"
  by (subst decimal.simps) simp

lemma decimal_value_snoc: "decimal_value (s @ [c]) = 10 * decimal_value s + digit_value c"
  by (simp add: decimal_value_def)

lemma decimal_value_decimal: "0 \<le> n \<Longrightarrow> decimal_value (decimal n) = n"
proof (induction n rule: decimal.induct)
  case (1 n)
  show ?case
  proof (cases "n < 10")
    case True
    then show ?thesis using 1
      by (subst decimal.simps) (simp add: decimal_value_def digit_value_digit_of)
  next
    case False
    then have "decimal_value (decimal (n div 10)) = n div 10" using 1 by simp
    then show ?thesis using False
      by (subst decimal.simps) (simp add: decimal_value_snoc digit_value_digit_of)
  qed
qed

lemma decimal_head: "0 < n \<Longrightarrow> hd (decimal n) \<noteq> CHR ''0''"
proof (induction n rule: decimal.induct)
  case (1 n)
  show ?case
  proof (cases "n < 10")
    case True
    then show ?thesis using 1 by (subst decimal.simps) (simp add: digit_of_nonzero)
  next
    case False
    then have "hd (decimal (n div 10)) \<noteq> CHR ''0''" using 1 by simp
    then show ?thesis using False
      by (subst decimal.simps) (simp add: decimal_nonempty)
  qed
qed

lemma decimal_zero: "decimal 0 = ''0''"
  by (subst decimal.simps) (simp add: digit_of_def)

lemma decimal_numeric: "0 \<le> n \<Longrightarrow> numericIdentifier (decimal n)"
proof (cases "n = 0")
  case True
  then show ?thesis by (simp add: decimal_zero numericIdentifier_def is_digit_def)
next
  case False
  assume "0 \<le> n"
  then have "hd (decimal n) \<noteq> CHR ''0''" using False by (simp add: decimal_head)
  then show ?thesis
    using decimal_digits [of n] decimal_nonempty [of n]
    by (cases "decimal n") (simp_all add: numericIdentifier_def)
qed

lemma digit_classes:
  "is_digit c \<Longrightarrow> not_sign c \<and> c \<noteq> CHR ''.'' \<and> c \<noteq> CHR ''+'' \<and> c \<noteq> CHR ''v''
     \<and> \<not> is_space c \<and> is_ident_char c"
  by (auto simp: is_digit_def not_sign_def is_space_def is_ident_char_def)

lemma ident_char_classes:
  "is_ident_char c \<Longrightarrow> c \<noteq> CHR ''.'' \<and> c \<noteq> CHR ''+'' \<and> \<not> is_space c"
  by (auto simp: is_ident_char_def is_digit_def is_alpha_def is_space_def)

lemma split_on_nonempty: "split_on sep s \<noteq> []"
  by (induction s) (auto split: list.split)

lemma split_on_plain: "sep \<notin> set x \<Longrightarrow> split_on sep x = [x]"
  by (induction x) auto

lemma split_on_append:
  "sep \<notin> set x \<Longrightarrow> split_on sep (x @ sep # rest) = x # split_on sep rest"
  by (induction x) (auto split: list.split simp: split_on_nonempty)

lemma split_on_join:
  "xs \<noteq> [] \<Longrightarrow> \<forall>x \<in> set xs. sep \<notin> set x \<Longrightarrow> split_on sep (join_strings [sep] xs) = xs"
proof (induction "[sep]" xs rule: join_strings.induct)
  case 1
  then show ?case by simp
next
  case (2 s)
  then show ?case by (simp add: split_on_plain)
next
  case (3 s t ss)
  then show ?case using split_on_append [of sep s "join_strings [sep] (t # ss)"] by simp
qed

lemma list_all_join:
  "list_all P sep \<Longrightarrow> \<forall>x \<in> set xs. list_all P x \<Longrightarrow> list_all P (join_strings sep xs)"
  by (induction sep xs rule: join_strings.induct) simp_all

lemma while_split:
  "list_all P xs \<Longrightarrow> (case ys of [] \<Rightarrow> True | y # _ \<Rightarrow> \<not> P y) \<Longrightarrow>
   takeWhile P (xs @ ys) = xs \<and> dropWhile P (xs @ ys) = ys"
  by (cases ys) (simp_all add: list_all_iff)

lemma trim_spaces:
  assumes "list_all is_space lead" "list_all is_space trail"
    and "core \<noteq> []" "list_all (\<lambda>c. \<not> is_space c) core"
  shows "trim (lead @ core @ trail) = core"
proof -
  have h: "\<not> is_space (hd core)" using assms(3,4) by (cases core) simp_all
  have l: "\<not> is_space (last core)" using assms(3,4) by (simp add: list_all_iff)
  have "dropWhile is_space (lead @ core @ trail) = core @ trail"
    using assms(1,3) h by (cases core) (simp_all add: list_all_iff)
  moreover have "dropWhile is_space (rev trail @ rev core) = dropWhile is_space (rev core)"
    using assms(2) by (intro dropWhile_append2) (simp add: list_all_iff)
  moreover have "dropWhile is_space (rev core) = rev core"
    using assms(3) l by (cases "rev core") (simp_all add: last_rev hd_rev)
  ultimately show ?thesis by (simp add: trim_def)
qed


lemma ident_text_valid:
  assumes "valid_ident i"
  shows "prereleaseIdentifier (ident_text i)" "toIdent (ident_text i) = i"
    "list_all is_ident_char (ident_text i)"
proof -
  have d: "list_all is_ident_char (decimal n)" for n
    using decimal_digits [of n] by (simp add: list_all_iff digit_classes)
  show "prereleaseIdentifier (ident_text i)"
    using assms d by (cases i) (simp_all add: prereleaseIdentifier_def decimal_nonempty decimal_numeric)
  show "toIdent (ident_text i) = i"
    using assms
    by (cases i)
      (simp_all add: toIdent_def decimal_nonempty decimal_digits decimal_value_decimal toDouble_exact)
  show "list_all is_ident_char (ident_text i)"
    using assms d by (cases i) simp_all
qed

lemma splitVersion_text:
  assumes "list_all not_sign m" "\<forall>p \<in> set ps. list_all is_ident_char p"
    and "\<forall>x \<in> set b. list_all is_ident_char x"
  shows "splitVersion (m @ (if ps = [] then [] else CHR ''-'' # join_strings ''.'' ps)
                         @ (if b = [] then [] else CHR ''+'' # join_strings ''.'' b))
         = (m, ps, b)"
proof -
  let ?pre = "if ps = [] then [] else CHR ''-'' # join_strings ''.'' ps"
  let ?bld = "if b = [] then [] else CHR ''+'' # join_strings ''.'' b"
  have start: "case ?pre @ ?bld of [] \<Rightarrow> True | y # _ \<Rightarrow> \<not> not_sign y"
    by (simp add: not_sign_def)
  have tk: "takeWhile not_sign (m @ ?pre @ ?bld) = m \<and> dropWhile not_sign (m @ ?pre @ ?bld) = ?pre @ ?bld"
    using while_split [OF assms(1) start] by simp
  have no_dot_p: "\<forall>p \<in> set ps. CHR ''.'' \<notin> set p"
    using assms(2) ident_char_classes by (auto simp: list_all_iff)
  have no_dot_b: "\<forall>x \<in> set b. CHR ''.'' \<notin> set x"
    using assms(3) ident_char_classes by (auto simp: list_all_iff)
  have "\<forall>p \<in> set ps. list_all (\<lambda>c. c \<noteq> CHR ''+'') p"
    using assms(2) ident_char_classes by (auto simp: list_all_iff)
  then have no_plus: "list_all (\<lambda>c. c \<noteq> CHR ''+'') (join_strings ''.'' ps)"
    by (intro list_all_join) simp_all
  have bstart: "case ?bld of [] \<Rightarrow> True | y # _ \<Rightarrow> \<not> (y \<noteq> CHR ''+'')"
    by simp
  have tk2: "takeWhile (\<lambda>c. c \<noteq> CHR ''+'') (join_strings ''.'' ps @ ?bld) = join_strings ''.'' ps
      \<and> dropWhile (\<lambda>c. c \<noteq> CHR ''+'') (join_strings ''.'' ps @ ?bld) = ?bld"
    using while_split [OF no_plus bstart] by simp
  have sp: "ps \<noteq> [] \<Longrightarrow> split_on CHR ''.'' (join_strings ''.'' ps) = ps"
    using split_on_join [of ps "CHR ''.''"] no_dot_p by simp
  have sb: "b \<noteq> [] \<Longrightarrow> split_on CHR ''.'' (join_strings ''.'' b) = b"
    using split_on_join [of b "CHR ''.''"] no_dot_b by simp
  define t where "t = ?pre @ ?bld"
  have parts: "splitVersion (m @ t) =
        (m,
         case t of c # r \<Rightarrow>
             if c = CHR ''-'' then split_on CHR ''.'' (takeWhile (\<lambda>c. c \<noteq> CHR ''+'') r) else []
           | [] \<Rightarrow> [],
         case (case t of c # r \<Rightarrow> if c = CHR ''-'' then dropWhile (\<lambda>c. c \<noteq> CHR ''+'') r else t
                | [] \<Rightarrow> []) of
           c # r \<Rightarrow> split_on CHR ''.'' r | [] \<Rightarrow> [])"
    using tk unfolding t_def [symmetric] by (simp add: splitVersion_def Let_def)
  show ?thesis
  proof (cases "ps = []")
    case True
    then have "t = ?bld" by (simp add: t_def)
    then show ?thesis using parts sb True unfolding t_def by (cases "b = []") simp_all
  next
    case False
    then have "t = CHR ''-'' # (join_strings ''.'' ps @ ?bld)" by (simp add: t_def)
    then have "splitVersion (m @ t) =
          (m, split_on CHR ''.'' (join_strings ''.'' ps),
           case ?bld of c # r \<Rightarrow> split_on CHR ''.'' r | [] \<Rightarrow> [])"
      using parts tk2 by simp
    then show ?thesis using sp sb False unfolding t_def by (cases "b = []") simp_all
  qed
qed

lemma parse_version_string:
  assumes "valid_semver v" "list_all buildIdentifier build"
    and "list_all is_space lead" "list_all is_space trail"
    and "length (version_string lead v_prefix v build trail) \<le> 256"
  shows "parseSemVer (version_string lead v_prefix v build trail) = Inr v"
proof -
  let ?ds = "[decimal (major v), decimal (minor v), decimal (patch v)]"
  let ?m = "join_strings ''.'' ?ds"
  let ?ps = "map ident_text (pre_ids v)"
  let ?text = "version_text v build"
  let ?core = "(if v_prefix then ''v'' else []) @ ?text"
  have nonneg: "0 \<le> major v" "0 \<le> minor v" "0 \<le> patch v"
    and safe: "major v \<le> MAX_SAFE_INTEGER" "minor v \<le> MAX_SAFE_INTEGER" "patch v \<le> MAX_SAFE_INTEGER"
    and ids: "list_all valid_ident (pre_ids v)"
    using assms(1) by (simp_all add: valid_semver_def)
  have ps_chars: "\<forall>p \<in> set ?ps. list_all is_ident_char p"
    using ids ident_text_valid(3) by (auto simp: list_all_iff)
  have b_chars: "\<forall>x \<in> set build. list_all is_ident_char x"
    using assms(2) by (auto simp: list_all_iff buildIdentifier_def)
  have ds_digits: "\<forall>d \<in> set ?ds. list_all is_digit d" by (simp add: decimal_digits)
  have m_sign: "list_all not_sign ?m"
  proof (rule list_all_join)
    show "list_all not_sign ''.''" by (simp add: not_sign_def)
    show "\<forall>x \<in> set ?ds. list_all not_sign x"
      using ds_digits digit_classes by (auto simp: list_all_iff)
  qed
  have shape: "?text = ?m @ (if ?ps = [] then [] else CHR ''-'' # join_strings ''.'' ?ps)
                         @ (if build = [] then [] else CHR ''+'' # join_strings ''.'' build)"
    by (simp add: version_text_def)
  have split: "splitVersion ?text = (?m, ?ps, build)"
    unfolding shape by (rule splitVersion_text [OF m_sign ps_chars b_chars])
  have m_nospace: "list_all (\<lambda>c. \<not> is_space c) ?m"
  proof (rule list_all_join)
    show "list_all (\<lambda>c. \<not> is_space c) ''.''" by (simp add: is_space_def)
    show "\<forall>x \<in> set ?ds. list_all (\<lambda>c. \<not> is_space c) x"
      using ds_digits digit_classes by (auto simp: list_all_iff)
  qed
  have ps_nospace: "list_all (\<lambda>c. \<not> is_space c) (join_strings ''.'' ?ps)"
  proof (rule list_all_join)
    show "list_all (\<lambda>c. \<not> is_space c) ''.''" by (simp add: is_space_def)
    show "\<forall>x \<in> set ?ps. list_all (\<lambda>c. \<not> is_space c) x"
      using ps_chars ident_char_classes by (auto simp: list_all_iff)
  qed
  have b_nospace: "list_all (\<lambda>c. \<not> is_space c) (join_strings ''.'' build)"
  proof (rule list_all_join)
    show "list_all (\<lambda>c. \<not> is_space c) ''.''" by (simp add: is_space_def)
    show "\<forall>x \<in> set build. list_all (\<lambda>c. \<not> is_space c) x"
      using b_chars ident_char_classes by (auto simp: list_all_iff)
  qed
  have text_nospace: "list_all (\<lambda>c. \<not> is_space c) ?text"
    using m_nospace ps_nospace b_nospace by (simp add: shape is_space_def)
  have core_nospace: "list_all (\<lambda>c. \<not> is_space c) ?core"
    using text_nospace by (simp add: is_space_def)
  have m_start: "?m = decimal (major v) @ ''.'' @ decimal (minor v) @ ''.'' @ decimal (patch v)"
    by simp
  obtain c cs where dm: "decimal (major v) = c # cs" and c: "is_digit c"
    using decimal_nonempty [of "major v"] decimal_digits [of "major v"]
    by (cases "decimal (major v)") simp_all
  have text_head: "?text = c # (cs @ ''.'' @ decimal (minor v) @ ''.'' @ decimal (patch v)
        @ (if ?ps = [] then [] else CHR ''-'' # join_strings ''.'' ?ps)
        @ (if build = [] then [] else CHR ''+'' # join_strings ''.'' build))"
    using dm by (simp add: version_text_def)
  have "c \<noteq> CHR ''v''" using c digit_classes by blast
  then have strip: "strip_v ?core = ?text"
    by (subst (2) text_head) (simp add: strip_v_def text_head)
  have core_ne: "?core \<noteq> []" using text_head by simp
  have trim: "trim (version_string lead v_prefix v build trail) = ?core"
    using trim_spaces [OF assms(3,4) core_ne core_nospace] by (simp add: version_string_def)
  have no_dot: "\<forall>d \<in> set ?ds. CHR ''.'' \<notin> set d"
    using ds_digits digit_classes by (auto simp: list_all_iff)
  have main: "split_on CHR ''.'' ?m = ?ds"
    using split_on_join [of ?ds "CHR ''.''"] no_dot by simp
  have pre_ok: "list_all prereleaseIdentifier ?ps"
    using ids ident_text_valid(1) by (auto simp: list_all_iff)
  have pre_back: "map toIdent ?ps = pre_ids v"
    using ids ident_text_valid(2) by (induction "pre_ids v") (auto simp: list_all_iff map_idI)
  have pre_back': "map (toIdent \<circ> ident_text) (pre_ids v) = pre_ids v"
    using pre_back by simp
  have safe': "\<not> MAX_SAFE_INTEGER < major v" "\<not> MAX_SAFE_INTEGER < minor v"
      "\<not> MAX_SAFE_INTEGER < patch v"
    using safe by simp_all
  have len: "\<not> length (version_string lead v_prefix v build trail) > 256"
    using assms(5) by simp
  show ?thesis
    unfolding parseSemVer_def
    using len
    by (simp only: if_False trim strip split main prod.case list.case)
       (simp add: decimal_numeric nonneg decimal_value_decimal toDouble_exact safe safe' pre_ok
          assms(2) pre_back')
qed


text \<open>
  C8 (as amended). For two version strings of at most 256 characters, each the text of
  a semantic version with components up to \<open>2^53 - 1\<close> and numeric pre-release
  identifiers below \<open>2^53 - 1\<close>, with or without a leading \<open>v\<close>, build metadata and
  surrounding white space, \<open>updateAvailable\<close> returns true exactly when the first version
  precedes the second in semantic-version order; in particular it is true for \<open>3.0.0\<close>
  and \<open>3.0.1\<close>, false for \<open>3.0.1\<close> and \<open>3.0.0\<close>, and false for \<open>3.0.0\<close> and \<open>3.0.0\<close>
  (the witness).
\<close>

theorem updateAvailable_semver:
  assumes "valid_semver a" "valid_semver b"
    and "list_all buildIdentifier build_a" "list_all buildIdentifier build_b"
    and "list_all is_space lead_a" "list_all is_space trail_a"
    and "list_all is_space lead_b" "list_all is_space trail_b"
    and "length (version_string lead_a v_a a build_a trail_a) \<le> 256"
    and "length (version_string lead_b v_b b build_b trail_b) \<le> 256"
  shows "updateAvailable (version_string lead_a v_a a build_a trail_a)
           (version_string lead_b v_b b build_b trail_b)
         = Inr (semver_precedes a b)"
proof -
  have "parseSemVer (version_string lead_a v_a a build_a trail_a) = Inr a"
    using assms(1,3,5,6,9) by (rule parse_version_string)
  moreover have "parseSemVer (version_string lead_b v_b b build_b trail_b) = Inr b"
    using assms(2,4,7,8,10) by (rule parse_version_string)
  ultimately show ?thesis
    using assms(1,2) by (simp add: updateAvailable_def semver_lt_def compare_semver_neg)
qed

theorem updateAvailable_semver_witness:
  "version_string [] False \<lparr>major = 3, minor = 0, patch = 0, pre_ids = []\<rparr> [] [] = ''3.0.0''
   \<and> version_string [] False \<lparr>major = 3, minor = 0, patch = 1, pre_ids = []\<rparr> [] [] = ''3.0.1''
   \<and> version_string '' '' True \<lparr>major = 3, minor = 0, patch = 0, pre_ids = [StrId ''rc'', NumId 2]\<rparr>
        [] [] = '' v3.0.0-rc.2''
   \<and> version_string [] False \<lparr>major = 3, minor = 0, patch = 0, pre_ids = [StrId ''rc'', NumId 10]\<rparr>
        [''build'', ''7''] '' '' = ''3.0.0-rc.10+build.7 ''
   \<and> updateAvailable ''3.0.0'' ''3.0.1'' = Inr True
   \<and> updateAvailable ''3.0.1'' ''3.0.0'' = Inr False
   \<and> updateAvailable ''3.0.0'' ''3.0.0'' = Inr False
   \<and> updateAvailable '' v3.0.0-rc.2'' ''3.0.0-rc.10+build.7 '' = Inr True
   \<and> updateAvailable ''3.0.0-rc.10+build.7 '' ''3.0.0'' = Inr True"
proof -
  let ?a = "\<lparr>major = 3, minor = 0, patch = 0, pre_ids = []\<rparr>"
  let ?b = "\<lparr>major = 3, minor = 0, patch = 1, pre_ids = []\<rparr>"
  let ?c = "\<lparr>major = 3, minor = 0, patch = 0, pre_ids = [StrId ''rc'', NumId 2]\<rparr>"
  let ?d = "\<lparr>major = 3, minor = 0, patch = 0, pre_ids = [StrId ''rc'', NumId 10]\<rparr>"
  have ta: "version_string [] False ?a [] [] = ''3.0.0''" by code_simp
  have tb: "version_string [] False ?b [] [] = ''3.0.1''" by code_simp
  have tc: "version_string '' '' True ?c [] [] = '' v3.0.0-rc.2''" by code_simp
  have td: "version_string [] False ?d [''build'', ''7''] '' '' = ''3.0.0-rc.10+build.7 ''"
    by code_simp
  have va: "valid_semver ?a" and vb: "valid_semver ?b" and vc: "valid_semver ?c"
    and vd: "valid_semver ?d"
    by (simp_all add: valid_semver_def MAX_SAFE_INTEGER_def is_ident_char_def is_digit_def
          is_alpha_def)
  have bd: "list_all buildIdentifier [''build'', ''7'']" "list_all buildIdentifier []"
    by (simp_all add: buildIdentifier_def is_ident_char_def is_digit_def is_alpha_def)
  have sp: "list_all is_space '' ''" "list_all is_space []" by (simp_all add: is_space_def)
  have "updateAvailable ''3.0.0'' ''3.0.1'' = Inr True"
    using updateAvailable_semver [OF va vb bd(2) bd(2) sp(2) sp(2) sp(2) sp(2), of False False]
    by (simp add: ta tb semver_precedes_def)
  moreover have "updateAvailable ''3.0.1'' ''3.0.0'' = Inr False"
    using updateAvailable_semver [OF vb va bd(2) bd(2) sp(2) sp(2) sp(2) sp(2), of False False]
    by (simp add: ta tb semver_precedes_def prerelease_precedes_def)
  moreover have "updateAvailable ''3.0.0'' ''3.0.0'' = Inr False"
    using updateAvailable_semver [OF va va bd(2) bd(2) sp(2) sp(2) sp(2) sp(2), of False False]
    by (simp add: ta semver_precedes_def prerelease_precedes_def)
  moreover have "updateAvailable '' v3.0.0-rc.2'' ''3.0.0-rc.10+build.7 '' = Inr True"
    using updateAvailable_semver [OF vc vd bd(2) bd(1) sp(1) sp(2) sp(2) sp(1), of True False]
    by (simp add: tc td semver_precedes_def prerelease_precedes_def)
  moreover have "updateAvailable ''3.0.0-rc.10+build.7 '' ''3.0.0'' = Inr True"
    using updateAvailable_semver [OF vd va bd(1) bd(2) sp(2) sp(1) sp(2) sp(2), of False False]
    by (simp add: ta td semver_precedes_def prerelease_precedes_def)
  ultimately show ?thesis using ta tb tc td by simp
qed

text \<open>
  C8 as stated fails for version strings outside that range. Two numeric pre-release
  identifiers from \<open>2^53 - 1\<close> on are compared as doubles: \<open>9007199254740992\<close> and
  \<open>9007199254740993\<close> are the same double, so \<open>1.0.0-9007199254740992\<close> is not found to
  precede \<open>1.0.0-9007199254740993\<close>. A component above \<open>2^53 - 1\<close> and a version of more
  than 256 characters make \<open>semver.lt\<close> throw.
\<close>

theorem updateAvailable_large_identifier_counterexample:
  "version_string [] False \<lparr>major = 1, minor = 0, patch = 0, pre_ids = [NumId 9007199254740992]\<rparr>
      [] [] = ''1.0.0-9007199254740992''
   \<and> version_string [] False \<lparr>major = 1, minor = 0, patch = 0, pre_ids = [NumId 9007199254740993]\<rparr>
      [] [] = ''1.0.0-9007199254740993''
   \<and> semver_precedes \<lparr>major = 1, minor = 0, patch = 0, pre_ids = [NumId 9007199254740992]\<rparr>
        \<lparr>major = 1, minor = 0, patch = 0, pre_ids = [NumId 9007199254740993]\<rparr>
   \<and> updateAvailable ''1.0.0-9007199254740992'' ''1.0.0-9007199254740993'' = Inr False
   \<and> updateAvailable ''9007199254740992.0.0'' ''9007199254740993.0.0'' = Inl TypeError
   \<and> updateAvailable (''1.0.0-'' @ replicate 251 CHR ''a'') ''2.0.0'' = Inl TypeError"
  by code_simp

text \<open>A string that is not a semantic version: \<open>semver.lt\<close> throws for it.\<close>

lemma updateAvailable_invalid_example:
  "updateAvailable ''3.0'' ''3.0.1'' = Inl TypeError"
  by code_simp

end
